theory Spec2Isabelle
  imports Main
begin

section \<open>The escrow ledger of the WorkLifecycle contract\<close>

text \<open>
  The Solidity contract \<^verbatim>\<open>WorkLifecycle\<close> (compiler 0.8.19) drives one escrow through
  \<^verbatim>\<open>startWork\<close>, \<^verbatim>\<open>submitMilestone\<close>, \<^verbatim>\<open>approveMilestone\<close>, \<^verbatim>\<open>rejectMilestone\<close>,
  \<^verbatim>\<open>resubmitMilestone\<close>, \<^verbatim>\<open>disputeMilestone\<close> and \<^verbatim>\<open>resolveDispute\<close>. Each function is
  embedded as a HOL function from the storage before the call to either an error (the call
  reverted, storage is as before) or the storage after the call.

  Addresses and \<^verbatim>\<open>uint256\<close> values are natural numbers. Solidity 0.8 checks every
  \<^verbatim>\<open>+\<close> and \<^verbatim>\<open>-\<close> on \<^verbatim>\<open>uint256\<close> and reverts with a panic when the result leaves
  \<open>0 .. 2^256 - 1\<close>; \<open>checked_add\<close> and \<open>checked_sub\<close> write that check out.
\<close>

type_synonym address = nat

subsection \<open>Errors\<close>

text \<open>
  A revert is classified by the failure taxonomy of the specification. The revert strings
  of the source map to it as follows: \<^verbatim>\<open>"Invalid status"\<close>, \<^verbatim>\<open>"Work started"\<close>,
  \<^verbatim>\<open>"Already submitted/processed"\<close>, \<^verbatim>\<open>"Escrow not active"\<close>, \<^verbatim>\<open>"Not submitted"\<close>,
  \<^verbatim>\<open>"Not rejected"\<close>, \<^verbatim>\<open>"Not in dispute"\<close> and \<^verbatim>\<open>"Not disputed"\<close> are \<open>InvalidState\<close>;
  \<^verbatim>\<open>"Invalid milestone"\<close> is \<open>NotFound\<close>; \<^verbatim>\<open>"Dispute period expired"\<close> is
  \<open>WindowExpired\<close>; \<^verbatim>\<open>"Invalid allocation"\<close> is \<open>InvalidAllocation\<close>. A failed role
  modifier is \<open>NotAuthorized\<close>, a failed \<^verbatim>\<open>validEscrow\<close> is \<open>NotFound\<close>, a failed
  \<^verbatim>\<open>nonReentrant\<close> is \<open>Reentrant\<close>, a failed \<^verbatim>\<open>whenNotPaused\<close> is \<open>Paused\<close>, a failed
  checked arithmetic operation is \<open>Panic\<close>, a payment the custody adapter refuses is
  \<open>TransferFailed\<close>, and an external call that fails where \<^verbatim>\<open>try\<close>/\<^verbatim>\<open>catch\<close> does not
  catch it is \<open>CallFailed\<close>.
\<close>

datatype error =
    NotAuthorized
  | NotFound
  | InvalidState
  | InvalidAllocation
  | WindowExpired
  | TransferFailed
  | CallFailed
  | Reentrant
  | Paused
  | Panic

definition MAX_UINT256 :: nat where
  "MAX_UINT256 = 2 ^ 256 - 1"

definition checked_add :: "nat \<Rightarrow> nat \<Rightarrow> error + nat" where
  "checked_add a b = (if a + b \<le> MAX_UINT256 then Inr (a + b) else Inl Panic)"

definition checked_sub :: "nat \<Rightarrow> nat \<Rightarrow> error + nat" where
  "checked_sub a b = (if b \<le> a then Inr (a - b) else Inl Panic)"

text \<open>\<^verbatim>\<open>require(c, "...")\<close> followed by the rest of the function body.\<close>

definition require :: "bool \<Rightarrow> error \<Rightarrow> (error + 'a) \<Rightarrow> error + 'a" where
  "require c e k = (if c then k else Inl e)"

subsection \<open>Storage\<close>

text \<open>
  Modelled from the spec: the declarations of \<^verbatim>\<open>EscrowCore.sol\<close> are not among the
  sources. The two status enumerations are those of section 3 of the specification; the
  source file names \<^verbatim>\<open>Pending\<close>, \<^verbatim>\<open>InProgress\<close>, \<^verbatim>\<open>Disputed\<close>, \<^verbatim>\<open>Released\<close> and all six
  milestone statuses. The record fields are the ones the functions of the source file read
  and write, under their Solidity names (the status field of a milestone is \<open>mstatus\<close>,
  since a record field name is global).
\<close>

datatype EscrowStatus = Pending | InProgress | Disputed | Released | Cancelled

datatype MilestoneStatus = NotStarted | Submitted | Approved | Rejected | Disputed | Resolved

record EscrowData =
  depositor :: address
  beneficiary :: address
  arbiters :: "address list"
  token :: address
  totalAmount :: nat
  paidAmount :: nat
  platformFee :: nat
  status :: EscrowStatus
  workStarted :: bool
  milestoneCount :: nat

record Milestone =
  description :: string
  amount :: nat
  mstatus :: MilestoneStatus
  submittedAt :: nat
  approvedAt :: nat
  disputedAt :: nat
  disputedBy :: address
  disputeReason :: string

text \<open>
  The storage of the contract. \<^verbatim>\<open>escrows\<close>, \<^verbatim>\<open>milestones\<close>, \<^verbatim>\<open>totalFeesByToken\<close>,
  \<^verbatim>\<open>escrowedAmount\<close> and \<^verbatim>\<open>completedEscrows\<close> are Solidity mappings: every key has a
  value, the zero value until it is written. \<open>reputation\<close> is the table
  \<^verbatim>\<open>_updateReputation\<close> writes, and \<open>transfers\<close> is the log of the payments
  \<^verbatim>\<open>_transferOut\<close> has made: token, recipient, amount, oldest first.
\<close>

record contract =
  escrows :: "nat \<Rightarrow> EscrowData"
  milestones :: "nat \<Rightarrow> nat \<Rightarrow> Milestone"
  totalFeesByToken :: "address \<Rightarrow> nat"
  escrowedAmount :: "address \<Rightarrow> nat"
  completedEscrows :: "address \<Rightarrow> nat"
  reputation :: "address \<Rightarrow> nat"
  transfers :: "(address \<times> address \<times> nat) list"

text \<open>
  What the source file uses and \<^verbatim>\<open>EscrowCore.sol\<close> declares is a parameter of the model:
  the constants, the three contract-wide modifiers \<^verbatim>\<open>validEscrow\<close>, \<^verbatim>\<open>nonReentrant\<close> and
  \<^verbatim>\<open>whenNotPaused\<close> (each a test of the storage that lets the call through or reverts it),
  whether the custody adapter accepts a payment, the reputation update, the address
  \<^verbatim>\<open>engagementRewards\<close> (zero when none is set) and whether a reward claim on it aborts
  the calling transaction.
\<close>

record env =
  DISPUTE_PERIOD :: nat
  MIN_REP_ELIGIBLE_ESCROW_VALUE :: nat
  REPUTATION_PER_MILESTONE :: nat
  REPUTATION_PER_ESCROW :: nat
  validEscrow :: "contract \<Rightarrow> nat \<Rightarrow> bool"
  nonReentrant :: "contract \<Rightarrow> bool"
  whenNotPaused :: "contract \<Rightarrow> bool"
  transferAccepted :: "address \<Rightarrow> address \<Rightarrow> nat \<Rightarrow> bool"
  updateReputation :: "(address \<Rightarrow> nat) \<Rightarrow> address \<Rightarrow> nat \<Rightarrow> error + (address \<Rightarrow> nat)"
  engagementRewards :: address
  appClaimAborts :: "address \<Rightarrow> nat \<Rightarrow> string \<Rightarrow> bool"

subsection \<open>Modifiers and internal helpers\<close>

text \<open>
  Modelled from the spec: the role modifiers are declared in \<^verbatim>\<open>EscrowCore.sol\<close>.
  \<^verbatim>\<open>onlyBeneficiary\<close> is \<open>caller == escrow.beneficiary\<close> (section 4.1),
  \<^verbatim>\<open>onlyDepositor\<close> is the depositor gate of section 4.2, and
  \<^verbatim>\<open>onlyEscrowParticipant\<close> admits the depositor, the beneficiary and the arbiters of the
  escrow (section 4.3).
\<close>

definition onlyBeneficiary :: "contract \<Rightarrow> address \<Rightarrow> nat \<Rightarrow> bool" where
  "onlyBeneficiary s sender escrowId = (sender = beneficiary (escrows s escrowId))"

definition onlyDepositor :: "contract \<Rightarrow> address \<Rightarrow> nat \<Rightarrow> bool" where
  "onlyDepositor s sender escrowId = (sender = depositor (escrows s escrowId))"

definition onlyEscrowParticipant :: "contract \<Rightarrow> address \<Rightarrow> nat \<Rightarrow> bool" where
  "onlyEscrowParticipant s sender escrowId =
     (sender = depositor (escrows s escrowId) \<or>
      sender = beneficiary (escrows s escrowId) \<or>
      sender \<in> set (arbiters (escrows s escrowId)))"

text \<open>
  Modelled from the spec: \<^verbatim>\<open>_transferOut\<close> is declared in \<^verbatim>\<open>EscrowCore.sol\<close>. Section 6:
  \<open>transfer_out(settlement_unit, recipient, amount)\<close> is all-or-nothing, and on failure
  the calling operation aborts with no state mutated.
\<close>

definition transferOut :: "env \<Rightarrow> contract \<Rightarrow> address \<Rightarrow> address \<Rightarrow> nat \<Rightarrow> error + contract" where
  "transferOut env s tok recipient amt =
     (if transferAccepted env tok recipient amt
      then Inr (s\<lparr>transfers := transfers s @ [(tok, recipient, amt)]\<rparr>)
      else Inl TransferFailed)"

text \<open>
  \<^verbatim>\<open>_updateReputation(user, points, reason)\<close>, through the parameter \<open>updateReputation\<close>,
  and \<^verbatim>\<open>completedEscrows[user] += 1\<close>.
\<close>

definition updateRep :: "env \<Rightarrow> contract \<Rightarrow> address \<Rightarrow> nat \<Rightarrow> error + contract" where
  "updateRep env s user points =
     (case updateReputation env (reputation s) user points of
        Inl err \<Rightarrow> Inl err
      | Inr r \<Rightarrow> Inr (s\<lparr>reputation := r\<rparr>))"

definition bumpCompleted :: "contract \<Rightarrow> address \<Rightarrow> error + contract" where
  "bumpCompleted s user =
     (case checked_add (completedEscrows s user) 1 of
        Inl err \<Rightarrow> Inl err
      | Inr n \<Rightarrow> Inr (s\<lparr>completedEscrows := (completedEscrows s)(user := n)\<rparr>))"

text \<open>Writing one escrow record and one milestone record back to storage.\<close>

definition setEscrow :: "contract \<Rightarrow> nat \<Rightarrow> EscrowData \<Rightarrow> contract" where
  "setEscrow s escrowId e = s\<lparr>escrows := (escrows s)(escrowId := e)\<rparr>"

definition setMilestone :: "contract \<Rightarrow> nat \<Rightarrow> nat \<Rightarrow> Milestone \<Rightarrow> contract" where
  "setMilestone s escrowId milestoneIndex m =
     s\<lparr>milestones := (milestones s)(escrowId := (milestones s escrowId)(milestoneIndex := m))\<rparr>"

text \<open>Sequencing of two steps of a function body: a revert of the first is the result.\<close>

definition andThen :: "(error + 'a) \<Rightarrow> ('a \<Rightarrow> error + 'b) \<Rightarrow> error + 'b" where
  "andThen r k = (case r of Inl err \<Rightarrow> Inl err | Inr x \<Rightarrow> k x)"

text \<open>\<^verbatim>\<open>e.paidAmount += amt\<close> and \<^verbatim>\<open>escrowedAmount[tok] -= amt\<close>, both checked.\<close>

definition addPaid :: "contract \<Rightarrow> nat \<Rightarrow> nat \<Rightarrow> error + contract" where
  "addPaid s escrowId amt =
     (case checked_add (paidAmount (escrows s escrowId)) amt of
        Inl err \<Rightarrow> Inl err
      | Inr paid \<Rightarrow> Inr (setEscrow s escrowId ((escrows s escrowId)\<lparr>paidAmount := paid\<rparr>)))"

definition releaseCustody :: "contract \<Rightarrow> address \<Rightarrow> nat \<Rightarrow> error + contract" where
  "releaseCustody s tok amt =
     (case checked_sub (escrowedAmount s tok) amt of
        Inl err \<Rightarrow> Inl err
      | Inr held \<Rightarrow> Inr (s\<lparr>escrowedAmount := (escrowedAmount s)(tok := held)\<rparr>))"

subsection \<open>The seven functions of the contract\<close>

text \<open>
  Every function takes the parameters \<open>env\<close>, the storage \<open>s\<close>, \<^verbatim>\<open>msg.sender\<close>,
  \<^verbatim>\<open>block.timestamp\<close> and then the arguments of the Solidity function. Modifiers run in
  the order the source lists them. Events are not part of the storage and are left out.
\<close>

definition startWork :: "env \<Rightarrow> contract \<Rightarrow> address \<Rightarrow> nat \<Rightarrow> nat \<Rightarrow> error + contract" where
  "startWork env s sender now escrowId =
     require (onlyBeneficiary s sender escrowId) NotAuthorized (
     require (validEscrow env s escrowId) NotFound (
     require (nonReentrant env s) Reentrant (
     require (whenNotPaused env s) Paused (
     let e = escrows s escrowId in
     require (status e = Pending) InvalidState (
     require (\<not> workStarted e) InvalidState (
     let s1 = setEscrow s escrowId (e\<lparr>workStarted := True, status := InProgress\<rparr>) in
     if platformFee e > 0 then
       (case checked_add (totalFeesByToken s1 (token e)) (platformFee e) of
          Inl err \<Rightarrow> Inl err
        | Inr fees \<Rightarrow> Inr (s1\<lparr>totalFeesByToken := (totalFeesByToken s1)(token e := fees)\<rparr>))
     else Inr s1))))))"

definition submitMilestone ::
  "env \<Rightarrow> contract \<Rightarrow> address \<Rightarrow> nat \<Rightarrow> nat \<Rightarrow> nat \<Rightarrow> string \<Rightarrow> error + contract" where
  "submitMilestone env s sender now escrowId milestoneIndex descr =
     require (onlyBeneficiary s sender escrowId) NotAuthorized (
     require (validEscrow env s escrowId) NotFound (
     require (nonReentrant env s) Reentrant (
     require (whenNotPaused env s) Paused (
     let e = escrows s escrowId in
     require (status e = InProgress) InvalidState (
     require (milestoneIndex < milestoneCount e) NotFound (
     let m = milestones s escrowId milestoneIndex in
     require (mstatus m = NotStarted) InvalidState (
     let m1 = m\<lparr>mstatus := Submitted, submittedAt := now\<rparr>;
         m2 = (if length descr > 0 then m1\<lparr>description := descr\<rparr> else m1)
     in Inr (setMilestone s escrowId milestoneIndex m2))))))))"

text \<open>
  In \<^verbatim>\<open>approveMilestone\<close> the reward claim \<^verbatim>\<open>engagementRewards.appClaim(...)\<close> is an
  external call inside \<^verbatim>\<open>try\<close>/\<^verbatim>\<open>catch\<close>, made when the address is not zero. When the
  callee returns or reverts, every branch only emits an event and the storage is as it
  was. When the address holds no code, or the data returned does not decode, the failure
  is in the caller, \<^verbatim>\<open>try\<close>/\<^verbatim>\<open>catch\<close> does not catch it and the whole call reverts:
  \<open>appClaimAborts\<close> says whether that happens.
\<close>

definition claimReward :: "env \<Rightarrow> contract \<Rightarrow> address \<Rightarrow> nat \<Rightarrow> string \<Rightarrow> error + contract" where
  "claimReward env s sender validUntilBlock signature =
     (if engagementRewards env \<noteq> 0 \<and> appClaimAborts env sender validUntilBlock signature
      then Inl CallFailed
      else Inr s)"

definition approveMilestone ::
  "env \<Rightarrow> contract \<Rightarrow> address \<Rightarrow> nat \<Rightarrow> nat \<Rightarrow> nat \<Rightarrow> nat \<Rightarrow> string \<Rightarrow> error + contract" where
  "approveMilestone env s sender now escrowId milestoneIndex validUntilBlock signature =
     require (onlyDepositor s sender escrowId) NotAuthorized (
     require (validEscrow env s escrowId) NotFound (
     require (nonReentrant env s) Reentrant (
     require (whenNotPaused env s) Paused (
     let e = escrows s escrowId in
     require (status e = InProgress) InvalidState (
     require (milestoneIndex < milestoneCount e) NotFound (
     let m = milestones s escrowId milestoneIndex in
     require (mstatus m = Submitted) InvalidState (
     let amt = amount m;
         s1 = setMilestone s escrowId milestoneIndex (m\<lparr>mstatus := Approved, approvedAt := now\<rparr>)
     in
     andThen (addPaid s1 escrowId amt) (\<lambda>s2.
     andThen (releaseCustody s2 (token e) amt) (\<lambda>s3.
     andThen (transferOut env s3 (token e) (beneficiary e) amt) (\<lambda>s4.
     andThen (claimReward env s4 sender validUntilBlock signature) (\<lambda>s5.
     andThen (if totalAmount e \<ge> MIN_REP_ELIGIBLE_ESCROW_VALUE env
              then updateRep env s5 (beneficiary e) (REPUTATION_PER_MILESTONE env)
              else Inr s5) (\<lambda>s6.
     if paidAmount (escrows s6 escrowId) = totalAmount (escrows s6 escrowId) then
       (let s7 = setEscrow s6 escrowId ((escrows s6 escrowId)\<lparr>status := Released\<rparr>) in
        andThen (if totalAmount e \<ge> MIN_REP_ELIGIBLE_ESCROW_VALUE env
                 then andThen (updateRep env s7 (beneficiary e) (REPUTATION_PER_ESCROW env))
                        (\<lambda>s8. updateRep env s8 (depositor e) (REPUTATION_PER_ESCROW env))
                 else Inr s7) (\<lambda>s9.
        andThen (bumpCompleted s9 (beneficiary e)) (\<lambda>s10.
        bumpCompleted s10 (depositor e))))
     else Inr s6))))))))))))"

definition rejectMilestone ::
  "env \<Rightarrow> contract \<Rightarrow> address \<Rightarrow> nat \<Rightarrow> nat \<Rightarrow> nat \<Rightarrow> string \<Rightarrow> error + contract" where
  "rejectMilestone env s sender now escrowId milestoneIndex reason =
     require (onlyDepositor s sender escrowId) NotAuthorized (
     require (validEscrow env s escrowId) NotFound (
     require (nonReentrant env s) Reentrant (
     require (whenNotPaused env s) Paused (
     let e = escrows s escrowId in
     require (status e = InProgress) InvalidState (
     require (milestoneIndex < milestoneCount e) NotFound (
     let m = milestones s escrowId milestoneIndex in
     require (mstatus m = Submitted) InvalidState (
     Inr (setMilestone s escrowId milestoneIndex
            (m\<lparr>mstatus := Rejected, disputedAt := now, disputedBy := sender,
               disputeReason := reason\<rparr>)))))))))"

definition resubmitMilestone ::
  "env \<Rightarrow> contract \<Rightarrow> address \<Rightarrow> nat \<Rightarrow> nat \<Rightarrow> nat \<Rightarrow> string \<Rightarrow> error + contract" where
  "resubmitMilestone env s sender now escrowId milestoneIndex descr =
     require (onlyBeneficiary s sender escrowId) NotAuthorized (
     require (validEscrow env s escrowId) NotFound (
     require (nonReentrant env s) Reentrant (
     require (whenNotPaused env s) Paused (
     let e = escrows s escrowId in
     require (status e = InProgress) InvalidState (
     require (milestoneIndex < milestoneCount e) NotFound (
     let m = milestones s escrowId milestoneIndex in
     require (mstatus m = Rejected) InvalidState (
     let m1 = m\<lparr>mstatus := Submitted, submittedAt := now\<rparr>;
         m2 = (if length descr > 0 then m1\<lparr>description := descr\<rparr> else m1)
     in Inr (setMilestone s escrowId milestoneIndex m2))))))))"

text \<open>
  \<^verbatim>\<open>disputeMilestone\<close> reads the escrow and the milestone and tests the milestone only:
  the source has no \<^verbatim>\<open>require\<close> on \<^verbatim>\<open>e.status\<close> and none on \<^verbatim>\<open>milestoneIndex\<close> here.
  The sum \<^verbatim>\<open>m.submittedAt + DISPUTE_PERIOD\<close> is checked arithmetic.
\<close>

definition disputeMilestone ::
  "env \<Rightarrow> contract \<Rightarrow> address \<Rightarrow> nat \<Rightarrow> nat \<Rightarrow> nat \<Rightarrow> string \<Rightarrow> error + contract" where
  "disputeMilestone env s sender now escrowId milestoneIndex reason =
     require (onlyDepositor s sender escrowId) NotAuthorized (
     require (validEscrow env s escrowId) NotFound (
     require (nonReentrant env s) Reentrant (
     require (whenNotPaused env s) Paused (
     let e = escrows s escrowId;
         m = milestones s escrowId milestoneIndex in
     require (mstatus m = Submitted) InvalidState (
     andThen (checked_add (submittedAt m) (DISPUTE_PERIOD env)) (\<lambda>deadline.
     require (now \<le> deadline) WindowExpired (
     let s1 = setMilestone s escrowId milestoneIndex
                (m\<lparr>mstatus := MilestoneStatus.Disputed, disputedAt := now,
                   disputedBy := sender, disputeReason := reason\<rparr>)
     in Inr (setEscrow s1 escrowId (e\<lparr>status := EscrowStatus.Disputed\<rparr>)))))))))"

definition resolveDispute ::
  "env \<Rightarrow> contract \<Rightarrow> address \<Rightarrow> nat \<Rightarrow> nat \<Rightarrow> nat \<Rightarrow> nat \<Rightarrow> string \<Rightarrow> error + contract" where
  "resolveDispute env s sender now escrowId milestoneIndex beneficiaryAmount resolutionReason =
     require (onlyEscrowParticipant s sender escrowId) NotAuthorized (
     require (validEscrow env s escrowId) NotFound (
     require (nonReentrant env s) Reentrant (
     require (whenNotPaused env s) Paused (
     let e = escrows s escrowId in
     require (status e = EscrowStatus.Disputed) InvalidState (
     let m = milestones s escrowId milestoneIndex in
     require (mstatus m = MilestoneStatus.Disputed) InvalidState (
     let milestoneAmount = amount m in
     require (beneficiaryAmount \<le> milestoneAmount) InvalidAllocation (
     let refundAmount = milestoneAmount - beneficiaryAmount;
         winner = (if beneficiaryAmount > refundAmount then beneficiary e else depositor e);
         s1 = setMilestone s escrowId milestoneIndex
                (m\<lparr>mstatus := Resolved, approvedAt := now,
                   disputeReason := resolutionReason, disputedBy := winner\<rparr>)
     in
     andThen (if beneficiaryAmount > 0
              then andThen (addPaid s1 escrowId beneficiaryAmount) (\<lambda>s2.
                   andThen (releaseCustody s2 (token e) beneficiaryAmount) (\<lambda>s3.
                   transferOut env s3 (token e) (beneficiary e) beneficiaryAmount))
              else Inr s1) (\<lambda>s4.
     andThen (if refundAmount > 0
              then andThen (releaseCustody s4 (token e) refundAmount) (\<lambda>s5.
                   transferOut env s5 (token e) (depositor e) refundAmount)
              else Inr s4) (\<lambda>s6.
     let s7 = setEscrow s6 escrowId ((escrows s6 escrowId)\<lparr>status := InProgress\<rparr>) in
     if paidAmount (escrows s7 escrowId) = totalAmount (escrows s7 escrowId)
     then Inr (setEscrow s7 escrowId ((escrows s7 escrowId)\<lparr>status := Released\<rparr>))
     else Inr s7)))))))))"

subsection \<open>Transactions\<close>

text \<open>
  A transaction names the sender, the block timestamp, the escrow and the function called
  with its arguments. A transaction that reverts leaves the storage as it was.
\<close>

datatype call =
    StartWork
  | SubmitMilestone nat string
  | ApproveMilestone nat nat string
  | RejectMilestone nat string
  | ResubmitMilestone nat string
  | DisputeMilestone nat string
  | ResolveDispute nat nat string

type_synonym txn = "address \<times> nat \<times> nat \<times> call"

definition invoke :: "env \<Rightarrow> contract \<Rightarrow> address \<Rightarrow> nat \<Rightarrow> nat \<Rightarrow> call \<Rightarrow> error + contract" where
  "invoke env s sender now escrowId c =
     (case c of
        StartWork \<Rightarrow> startWork env s sender now escrowId
      | SubmitMilestone i d \<Rightarrow> submitMilestone env s sender now escrowId i d
      | ApproveMilestone i v sg \<Rightarrow> approveMilestone env s sender now escrowId i v sg
      | RejectMilestone i r \<Rightarrow> rejectMilestone env s sender now escrowId i r
      | ResubmitMilestone i d \<Rightarrow> resubmitMilestone env s sender now escrowId i d
      | DisputeMilestone i r \<Rightarrow> disputeMilestone env s sender now escrowId i r
      | ResolveDispute i b r \<Rightarrow> resolveDispute env s sender now escrowId i b r)"

definition execute :: "env \<Rightarrow> contract \<Rightarrow> txn \<Rightarrow> contract" where
  "execute env s t =
     (case t of (sender, now, escrowId, c) \<Rightarrow>
        (case invoke env s sender now escrowId c of Inl err \<Rightarrow> s | Inr s' \<Rightarrow> s'))"

definition run :: "env \<Rightarrow> contract \<Rightarrow> txn list \<Rightarrow> contract" where
  "run env s ts = foldl (execute env) s ts"

subsection \<open>A new escrow\<close>

text \<open>
  Modelled from the spec: the function that creates an escrow is not among the sources.
  Section 3: an escrow is created on funding, with the funds moved into custody;
  \<open>total_amount\<close> equals the sum of all milestone \<open>amount\<close> fields, fixed at creation, and
  the milestones are created with the escrow. A new escrow is \<open>Pending\<close>, nothing is paid,
  work has not started and every milestone is \<open>NotStarted\<close>. A milestone slot past
  \<open>milestoneCount\<close> holds the zero value of the mapping.
\<close>

definition zeroMilestone :: Milestone where
  "zeroMilestone = \<lparr>description = [], amount = 0, mstatus = NotStarted, submittedAt = 0,
     approvedAt = 0, disputedAt = 0, disputedBy = 0, disputeReason = []\<rparr>"

definition newMilestones :: "(string \<times> nat) list \<Rightarrow> nat \<Rightarrow> Milestone" where
  "newMilestones items i =
     (if i < length items
      then zeroMilestone\<lparr>description := fst (items ! i), amount := snd (items ! i)\<rparr>
      else zeroMilestone)"

definition newEscrow ::
  "contract \<Rightarrow> nat \<Rightarrow> address \<Rightarrow> address \<Rightarrow> address list \<Rightarrow> address \<Rightarrow> nat \<Rightarrow>
     (string \<times> nat) list \<Rightarrow> contract" where
  "newEscrow s escrowId dep ben arbs tok fee items =
     s\<lparr>escrows := (escrows s)(escrowId :=
          \<lparr>depositor = dep, beneficiary = ben, arbiters = arbs, token = tok,
           totalAmount = sum_list (map snd items), paidAmount = 0, platformFee = fee,
           status = Pending, workStarted = False, milestoneCount = length items\<rparr>),
       milestones := (milestones s)(escrowId := newMilestones items),
       escrowedAmount := (escrowedAmount s)(tok := escrowedAmount s tok + sum_list (map snd items))\<rparr>"

subsection \<open>Quantities of the ledger\<close>

text \<open>The sum of the \<open>amount\<close> fields of the first \<open>n\<close> milestones of an escrow.\<close>

definition milestonesTotal :: "(nat \<Rightarrow> Milestone) \<Rightarrow> nat \<Rightarrow> nat" where
  "milestonesTotal ms n = sum_list (map (\<lambda>i. amount (ms i)) [0..<n])"

text \<open>
  What a milestone can still add to \<open>paidAmount\<close>: nothing once it is \<open>Approved\<close> or
  \<open>Resolved\<close>, its amount before. \<open>outstanding\<close> sums it over the first \<open>n\<close> milestones.
\<close>

definition owed :: "Milestone \<Rightarrow> nat" where
  "owed m = (if mstatus m = Approved \<or> mstatus m = Resolved then 0 else amount m)"

definition outstanding :: "(nat \<Rightarrow> Milestone) \<Rightarrow> nat \<Rightarrow> nat" where
  "outstanding ms n = sum_list (map (\<lambda>i. owed (ms i)) [0..<n])"

text \<open>
  The invariant of one escrow: what is paid and what can still be paid stay within the
  total, the milestone amounts sum to the total, and no slot past \<open>milestoneCount\<close> has
  left \<open>NotStarted\<close>. \<open>preserved s s' k\<close>: escrow \<open>k\<close> satisfies the invariant in \<open>s'\<close> and
  has the total, the milestone count and the milestone amounts it has in \<open>s\<close>.
\<close>

definition conserved :: "EscrowData \<Rightarrow> (nat \<Rightarrow> Milestone) \<Rightarrow> bool" where
  "conserved e ms =
     (paidAmount e + outstanding ms (milestoneCount e) \<le> totalAmount e \<and>
      milestonesTotal ms (milestoneCount e) = totalAmount e \<and>
      (\<forall>i. milestoneCount e \<le> i \<longrightarrow> mstatus (ms i) = NotStarted))"

definition preserved :: "contract \<Rightarrow> contract \<Rightarrow> nat \<Rightarrow> bool" where
  "preserved s s' k =
     (conserved (escrows s' k) (milestones s' k) \<and>
      totalAmount (escrows s' k) = totalAmount (escrows s k) \<and>
      milestoneCount (escrows s' k) = milestoneCount (escrows s k) \<and>
      (\<forall>i. amount (milestones s' k i) = amount (milestones s k i)))"

text \<open>
  Further invariants of one escrow. \<open>accounted\<close>: it is \<open>conserved\<close>, and while it is
  \<open>Released\<close> everything has been paid. \<open>paidUp\<close>: everything has been paid and the escrow
  is \<open>Released\<close> or \<open>Disputed\<close>. \<open>positive\<close>: every milestone amount is positive.
  \<open>finished\<close>: positive amounts, everything paid, \<open>Released\<close>.
\<close>

definition accounted :: "EscrowData \<Rightarrow> (nat \<Rightarrow> Milestone) \<Rightarrow> bool" where
  "accounted e ms =
     (conserved e ms \<and> (status e = Released \<longrightarrow> paidAmount e = totalAmount e))"

definition paidUp :: "EscrowData \<Rightarrow> (nat \<Rightarrow> Milestone) \<Rightarrow> bool" where
  "paidUp e ms =
     (conserved e ms \<and> paidAmount e = totalAmount e \<and>
      (status e = Released \<or> status e = EscrowStatus.Disputed))"

definition positive :: "EscrowData \<Rightarrow> (nat \<Rightarrow> Milestone) \<Rightarrow> bool" where
  "positive e ms = (\<forall>i. i < milestoneCount e \<longrightarrow> 0 < amount (ms i))"

definition finished :: "EscrowData \<Rightarrow> (nat \<Rightarrow> Milestone) \<Rightarrow> bool" where
  "finished e ms = (conserved e ms \<and> positive e ms \<and> paidAmount e = totalAmount e \<and> status e = Released)"

subsection \<open>Example storages\<close>

text \<open>
  An environment that lets every call through, accepts every payment and has a rewards
  contract at address 50 whose claims never abort the caller, the storage of a
  contract nothing has been written to, and escrows in it: escrow 7 of depositor 10 and
  beneficiary 20 with arbiter 30, token 40, a platform fee of 3 and milestones of 100 and
  200; escrow 8 of the same parties with a milestone of 100 and a milestone of 0.
\<close>

definition env0 :: env where
  "env0 = \<lparr>DISPUTE_PERIOD = 604800, MIN_REP_ELIGIBLE_ESCROW_VALUE = 100,
     REPUTATION_PER_MILESTONE = 10, REPUTATION_PER_ESCROW = 25,
     validEscrow = (\<lambda>s escrowId. True), nonReentrant = (\<lambda>s. True),
     whenNotPaused = (\<lambda>s. True), transferAccepted = (\<lambda>tok recipient amt. True),
     updateReputation = (\<lambda>rep user points. Inr (rep(user := rep user + points))),
     engagementRewards = 50, appClaimAborts = (\<lambda>user validUntilBlock signature. False)\<rparr>"

definition zeroEscrow :: EscrowData where
  "zeroEscrow = \<lparr>depositor = 0, beneficiary = 0, arbiters = [], token = 0, totalAmount = 0,
     paidAmount = 0, platformFee = 0, status = Pending, workStarted = False, milestoneCount = 0\<rparr>"

definition emptyStorage :: contract where
  "emptyStorage = \<lparr>escrows = (\<lambda>escrowId. zeroEscrow),
     milestones = (\<lambda>escrowId milestoneIndex. zeroMilestone),
     totalFeesByToken = (\<lambda>tok. 0), escrowedAmount = (\<lambda>tok. 0),
     completedEscrows = (\<lambda>user. 0), reputation = (\<lambda>user. 0), transfers = []\<rparr>"

definition twoMilestones :: contract where
  "twoMilestones =
     newEscrow emptyStorage 7 10 20 [30] 40 3 [(''design'', 100), (''build'', 200)]"

definition started :: contract where
  "started = run env0 twoMilestones [(20, 1000, 7, StartWork)]"

definition bothSubmitted :: contract where
  "bothSubmitted = run env0 started
     [(20, 2000, 7, SubmitMilestone 0 []), (20, 3000, 7, SubmitMilestone 1 [])]"

definition firstDisputed :: contract where
  "firstDisputed = run env0 bothSubmitted [(10, 4000, 7, DisputeMilestone 0 ''incomplete'')]"

definition firstRejected :: contract where
  "firstRejected = run env0 bothSubmitted [(10, 4000, 7, RejectMilestone 0 ''needs revision'')]"

definition oneResolved :: contract where
  "oneResolved = run env0 firstDisputed
     [(10, 5000, 7, DisputeMilestone 1 ''incomplete''),
      (30, 6000, 7, ResolveDispute 0 40 ''partly done'')]"

definition zeroAmount :: contract where
  "zeroAmount = newEscrow emptyStorage 8 10 20 [30] 40 0 [(''work'', 100), (''handover'', 0)]"

definition releasedEarly :: contract where
  "releasedEarly = run env0 zeroAmount
     [(20, 1000, 8, StartWork), (20, 2000, 8, SubmitMilestone 0 []),
      (20, 3000, 8, SubmitMilestone 1 []), (10, 4000, 8, ApproveMilestone 0 0 [])]"

section \<open>What a successful call does\<close>

lemmas op_defs = require_def andThen_def addPaid_def releaseCustody_def
      transferOut_def claimReward_def updateRep_def bumpCompleted_def setEscrow_def
      setMilestone_def
      checked_add_def checked_sub_def Let_def

lemmas role_defs = onlyBeneficiary_def onlyDepositor_def onlyEscrowParticipant_def

lemmas call_defs = startWork_def submitMilestone_def approveMilestone_def rejectMilestone_def
      resubmitMilestone_def disputeMilestone_def resolveDispute_def

lemmas example_defs = run_def execute_def invoke_def call_defs role_defs op_defs
      env0_def zeroEscrow_def emptyStorage_def twoMilestones_def started_def bothSubmitted_def
      firstDisputed_def firstRejected_def oneResolved_def zeroAmount_def releasedEarly_def
      newEscrow_def newMilestones_def
      zeroMilestone_def MAX_UINT256_def

lemma startWork_effect:
  assumes "startWork env s sender now escrowId = Inr s'"
  shows "sender = beneficiary (escrows s escrowId) \<and> status (escrows s escrowId) = Pending \<and>
     \<not> workStarted (escrows s escrowId) \<and>
     milestones s' = milestones s \<and>
     escrows s' = (escrows s)(escrowId := (escrows s escrowId)
        \<lparr>workStarted := True, status := InProgress\<rparr>) \<and>
     totalFeesByToken s' = (totalFeesByToken s)(token (escrows s escrowId) :=
        totalFeesByToken s (token (escrows s escrowId)) + platformFee (escrows s escrowId)) \<and>
     escrowedAmount s' = escrowedAmount s \<and> transfers s' = transfers s"
  using assms
  by (auto simp: startWork_def onlyBeneficiary_def op_defs split: if_splits sum.splits)

lemma submitMilestone_effect:
  assumes "submitMilestone env s sender now escrowId i d = Inr s'"
  shows "sender = beneficiary (escrows s escrowId) \<and> status (escrows s escrowId) = InProgress \<and>
     i < milestoneCount (escrows s escrowId) \<and>
     mstatus (milestones s escrowId i) = NotStarted \<and>
     milestones s' = (milestones s)(escrowId := (milestones s escrowId)
        (i := (milestones s escrowId i)\<lparr>mstatus := Submitted, submittedAt := now,
             description := (if d = [] then description (milestones s escrowId i) else d)\<rparr>)) \<and>
     escrows s' = escrows s \<and> totalFeesByToken s' = totalFeesByToken s \<and>
     escrowedAmount s' = escrowedAmount s \<and> transfers s' = transfers s"
  using assms
  by (auto simp: submitMilestone_def onlyBeneficiary_def op_defs split: if_splits sum.splits)

lemma resubmitMilestone_effect:
  assumes "resubmitMilestone env s sender now escrowId i d = Inr s'"
  shows "sender = beneficiary (escrows s escrowId) \<and> status (escrows s escrowId) = InProgress \<and>
     i < milestoneCount (escrows s escrowId) \<and>
     mstatus (milestones s escrowId i) = Rejected \<and>
     milestones s' = (milestones s)(escrowId := (milestones s escrowId)
        (i := (milestones s escrowId i)\<lparr>mstatus := Submitted, submittedAt := now,
             description := (if d = [] then description (milestones s escrowId i) else d)\<rparr>)) \<and>
     escrows s' = escrows s \<and> totalFeesByToken s' = totalFeesByToken s \<and>
     escrowedAmount s' = escrowedAmount s \<and> transfers s' = transfers s"
  using assms
  by (auto simp: resubmitMilestone_def onlyBeneficiary_def op_defs split: if_splits sum.splits)

lemma approveMilestone_effect:
  assumes "approveMilestone env s sender now escrowId i v sg = Inr s'"
  shows "sender = depositor (escrows s escrowId) \<and> status (escrows s escrowId) = InProgress \<and>
     i < milestoneCount (escrows s escrowId) \<and>
     mstatus (milestones s escrowId i) = Submitted \<and>
     milestones s' = (milestones s)(escrowId := (milestones s escrowId)
        (i := (milestones s escrowId i)\<lparr>mstatus := Approved, approvedAt := now\<rparr>)) \<and>
     escrows s' = (escrows s)(escrowId := (escrows s escrowId)
        \<lparr>paidAmount := paidAmount (escrows s escrowId) + amount (milestones s escrowId i),
         status := (if paidAmount (escrows s escrowId) + amount (milestones s escrowId i)
                        = totalAmount (escrows s escrowId) then Released else InProgress)\<rparr>) \<and>
     totalFeesByToken s' = totalFeesByToken s"
  using assms
  by (auto simp: approveMilestone_def onlyDepositor_def op_defs split: if_splits sum.splits)

lemma rejectMilestone_effect:
  assumes "rejectMilestone env s sender now escrowId i r = Inr s'"
  shows "sender = depositor (escrows s escrowId) \<and> status (escrows s escrowId) = InProgress \<and>
     i < milestoneCount (escrows s escrowId) \<and>
     mstatus (milestones s escrowId i) = Submitted \<and>
     milestones s' = (milestones s)(escrowId := (milestones s escrowId)
        (i := (milestones s escrowId i)\<lparr>mstatus := Rejected, disputedAt := now,
              disputedBy := sender, disputeReason := r\<rparr>)) \<and>
     escrows s' = escrows s \<and> totalFeesByToken s' = totalFeesByToken s \<and>
     escrowedAmount s' = escrowedAmount s \<and> transfers s' = transfers s"
  using assms
  by (auto simp: rejectMilestone_def onlyDepositor_def op_defs split: if_splits sum.splits)

lemma disputeMilestone_effect:
  assumes "disputeMilestone env s sender now escrowId i r = Inr s'"
  shows "sender = depositor (escrows s escrowId) \<and>
     mstatus (milestones s escrowId i) = Submitted \<and>
     now \<le> submittedAt (milestones s escrowId i) + DISPUTE_PERIOD env \<and>
     milestones s' = (milestones s)(escrowId := (milestones s escrowId)
        (i := (milestones s escrowId i)\<lparr>mstatus := MilestoneStatus.Disputed, disputedAt := now,
              disputedBy := sender, disputeReason := r\<rparr>)) \<and>
     escrows s' = (escrows s)(escrowId := (escrows s escrowId)\<lparr>status := EscrowStatus.Disputed\<rparr>) \<and>
     totalFeesByToken s' = totalFeesByToken s \<and>
     escrowedAmount s' = escrowedAmount s \<and> transfers s' = transfers s"
  using assms
  by (auto simp: disputeMilestone_def onlyDepositor_def op_defs split: if_splits sum.splits)

lemma resolveDispute_effect:
  assumes "resolveDispute env s sender now escrowId i b r = Inr s'"
  shows "onlyEscrowParticipant s sender escrowId \<and>
     status (escrows s escrowId) = EscrowStatus.Disputed \<and>
     mstatus (milestones s escrowId i) = MilestoneStatus.Disputed \<and>
     b \<le> amount (milestones s escrowId i) \<and>
     milestones s' = (milestones s)(escrowId := (milestones s escrowId)
        (i := (milestones s escrowId i)\<lparr>mstatus := Resolved, approvedAt := now,
              disputeReason := r,
              disputedBy := (if b > amount (milestones s escrowId i) - b
                             then beneficiary (escrows s escrowId)
                             else depositor (escrows s escrowId))\<rparr>)) \<and>
     escrows s' = (escrows s)(escrowId := (escrows s escrowId)
        \<lparr>paidAmount := paidAmount (escrows s escrowId) + b,
         status := (if paidAmount (escrows s escrowId) + b = totalAmount (escrows s escrowId)
                    then Released else InProgress)\<rparr>) \<and>
     totalFeesByToken s' = totalFeesByToken s \<and>
     amount (milestones s escrowId i) \<le> escrowedAmount s (token (escrows s escrowId)) \<and>
     escrowedAmount s' = (escrowedAmount s)(token (escrows s escrowId) :=
        escrowedAmount s (token (escrows s escrowId)) - amount (milestones s escrowId i)) \<and>
     transfers s' = transfers s
        @ (if b > 0 then [(token (escrows s escrowId), beneficiary (escrows s escrowId), b)] else [])
        @ (if amount (milestones s escrowId i) - b > 0
           then [(token (escrows s escrowId), depositor (escrows s escrowId),
                  amount (milestones s escrowId i) - b)] else [])"
  using assms
  by (auto simp: resolveDispute_def op_defs split: if_splits sum.splits)






section \<open>Conservation\<close>

lemma sum_upd_outside:
  "n \<le> i \<Longrightarrow> sum_list (map (\<lambda>j. f ((ms(i := x)) j)) [0..<n]) = sum_list (map (\<lambda>j. f (ms j)) [0..<n])"
  by (induction n) auto

lemma sum_upd_inside:
  "i < n \<Longrightarrow> sum_list (map (\<lambda>j. f ((ms(i := x)) j)) [0..<n]) + f (ms i)
     = sum_list (map (\<lambda>j. f (ms j)) [0..<n]) + (f x :: nat)"
proof (induction n)
  case 0
  then show ?case by simp
next
  case (Suc n)
  show ?case
  proof (cases "i = n")
    case True
    then show ?thesis using sum_upd_outside [of n n f ms x] by simp
  next
    case False
    with Suc.prems have "i < n" by simp
    from Suc.IH [OF this] False show ?thesis by simp
  qed
qed

lemma sum_upd_same:
  assumes "f x = (f (ms i) :: nat)"
  shows "sum_list (map (\<lambda>j. f ((ms(i := x)) j)) [0..<n]) = sum_list (map (\<lambda>j. f (ms j)) [0..<n])"
proof (cases "i < n")
  case True
  from sum_upd_inside [OF this, of f ms x] assms show ?thesis by simp
next
  case False
  then show ?thesis using sum_upd_outside [of n i f ms x] by simp
qed

lemma milestonesTotal_upd:
  "amount x = amount (ms i) \<Longrightarrow> milestonesTotal (ms(i := x)) n = milestonesTotal ms n"
  unfolding milestonesTotal_def by (rule sum_upd_same)


lemma outstanding_upd_same:
  "owed x = owed (ms i) \<Longrightarrow> outstanding (ms(i := x)) n = outstanding ms n"
  unfolding outstanding_def by (rule sum_upd_same)

lemma outstanding_upd_paid:
  "i < n \<Longrightarrow> owed x = 0 \<Longrightarrow> outstanding (ms(i := x)) n + owed (ms i) = outstanding ms n"
  unfolding outstanding_def using sum_upd_inside [of i n owed ms x] by simp

lemma conserved_milestone_upd:
  assumes "conserved e ms" and "amount x = amount (ms i)" and "owed x = owed (ms i)"
    and "mstatus x = NotStarted \<longrightarrow> i < milestoneCount e"
    and "i < milestoneCount e \<or> mstatus (ms i) \<noteq> NotStarted"
    and "paidAmount e' = paidAmount e" and "totalAmount e' = totalAmount e"
    and "milestoneCount e' = milestoneCount e"
  shows "conserved e' (ms(i := x))"
  using assms unfolding conserved_def
  by (auto simp: milestonesTotal_upd outstanding_upd_same)

lemma conserved_pay:
  assumes "conserved e ms" and "amount x = amount (ms i)"
    and "mstatus x = Approved \<or> mstatus x = Resolved"
    and "mstatus (ms i) = Submitted \<or> mstatus (ms i) = MilestoneStatus.Disputed"
    and "b \<le> amount (ms i)"
    and "paidAmount e' = paidAmount e + b" and "totalAmount e' = totalAmount e"
    and "milestoneCount e' = milestoneCount e"
  shows "conserved e' (ms(i := x))"
proof -
  from assms(1,4) have i: "i < milestoneCount e"
    unfolding conserved_def by (metis MilestoneStatus.distinct(1,7) not_le)
  from assms(4) have o: "owed (ms i) = amount (ms i)" by (auto simp: owed_def)
  from assms(3) have "owed x = 0" by (auto simp: owed_def)
  from outstanding_upd_paid [OF i this, of ms] o
  have "outstanding (ms(i := x)) (milestoneCount e) + amount (ms i) = outstanding ms (milestoneCount e)"
    by simp
  with assms i show ?thesis unfolding conserved_def
    by (auto simp: milestonesTotal_upd)
qed



lemma preserved_refl: "conserved (escrows s k) (milestones s k) \<Longrightarrow> preserved s s k"
  by (simp add: preserved_def)

lemma preserved_frame:
  assumes "conserved (escrows s k) (milestones s k)"
    and "escrows s' k = escrows s k" and "milestones s' k = milestones s k"
  shows "preserved s s' k"
  using assms by (simp add: preserved_def)

lemma preserved_milestone_upd:
  assumes "conserved (escrows s k) (milestones s k)"
    and "milestones s' k = (milestones s k)(i := milestones s' k i)"
    and "amount (milestones s' k i) = amount (milestones s k i)"
    and "owed (milestones s' k i) = owed (milestones s k i)"
    and "mstatus (milestones s' k i) \<noteq> NotStarted"
    and "i < milestoneCount (escrows s k) \<or> mstatus (milestones s k i) \<noteq> NotStarted"
    and "paidAmount (escrows s' k) = paidAmount (escrows s k)"
    and "totalAmount (escrows s' k) = totalAmount (escrows s k)"
    and "milestoneCount (escrows s' k) = milestoneCount (escrows s k)"
  shows "preserved s s' k"
proof -
  have "conserved (escrows s' k) ((milestones s k)(i := milestones s' k i))"
    by (rule conserved_milestone_upd [OF assms(1)]) (use assms in auto)
  with assms(2) have "conserved (escrows s' k) (milestones s' k)" by simp
  moreover have "amount (milestones s' k j) = amount (milestones s k j)" for j
    using assms(2,3) by (metis fun_upd_apply)
  ultimately show ?thesis using assms by (simp add: preserved_def)
qed

lemma preserved_pay:
  assumes "conserved (escrows s k) (milestones s k)"
    and "milestones s' k = (milestones s k)(i := milestones s' k i)"
    and "amount (milestones s' k i) = amount (milestones s k i)"
    and "mstatus (milestones s' k i) = Approved \<or> mstatus (milestones s' k i) = Resolved"
    and "mstatus (milestones s k i) = Submitted \<or> mstatus (milestones s k i) = MilestoneStatus.Disputed"
    and "b \<le> amount (milestones s k i)"
    and "paidAmount (escrows s' k) = paidAmount (escrows s k) + b"
    and "totalAmount (escrows s' k) = totalAmount (escrows s k)"
    and "milestoneCount (escrows s' k) = milestoneCount (escrows s k)"
  shows "preserved s s' k"
proof -
  have "conserved (escrows s' k) ((milestones s k)(i := milestones s' k i))"
    by (rule conserved_pay [OF assms(1), where b = b]) (use assms in auto)
  with assms(2) have "conserved (escrows s' k) (milestones s' k)" by simp
  moreover have "amount (milestones s' k j) = amount (milestones s k j)" for j
    using assms(2,3) by (metis fun_upd_apply)
  ultimately show ?thesis using assms by (simp add: preserved_def)
qed

lemma preserved_invoke:
  assumes ok: "invoke env s sender now escrowId c = Inr s'"
    and inv: "conserved (escrows s k) (milestones s k)"
  shows "preserved s s' k"
proof (cases "k = escrowId")
  case False
  have "escrows s' k = escrows s k \<and> milestones s' k = milestones s k"
  proof (cases c)
    case StartWork
    with ok have "startWork env s sender now escrowId = Inr s'" by (simp add: invoke_def)
    from startWork_effect [OF this] False show ?thesis by simp
  next
    case (SubmitMilestone i d)
    with ok have "submitMilestone env s sender now escrowId i d = Inr s'" by (simp add: invoke_def)
    from submitMilestone_effect [OF this] False show ?thesis by simp
  next
    case (ApproveMilestone i v sg)
    with ok have "approveMilestone env s sender now escrowId i v sg = Inr s'" by (simp add: invoke_def)
    from approveMilestone_effect [OF this] False show ?thesis by simp
  next
    case (RejectMilestone i r)
    with ok have "rejectMilestone env s sender now escrowId i r = Inr s'" by (simp add: invoke_def)
    from rejectMilestone_effect [OF this] False show ?thesis by simp
  next
    case (ResubmitMilestone i d)
    with ok have "resubmitMilestone env s sender now escrowId i d = Inr s'" by (simp add: invoke_def)
    from resubmitMilestone_effect [OF this] False show ?thesis by simp
  next
    case (DisputeMilestone i r)
    with ok have "disputeMilestone env s sender now escrowId i r = Inr s'" by (simp add: invoke_def)
    from disputeMilestone_effect [OF this] False show ?thesis by simp
  next
    case (ResolveDispute i b r)
    with ok have "resolveDispute env s sender now escrowId i b r = Inr s'" by (simp add: invoke_def)
    from resolveDispute_effect [OF this] False show ?thesis by simp
  qed
  with inv show ?thesis by (simp add: preserved_frame)
next
  case True
  note inv' = inv [unfolded True]
  show ?thesis unfolding True
  proof (cases c)
    case StartWork
    with ok have "startWork env s sender now escrowId = Inr s'" by (simp add: invoke_def)
    from startWork_effect [OF this] inv' show "preserved s s' escrowId"
      by (simp add: preserved_def conserved_def)
  next
    case (SubmitMilestone i d)
    with ok have "submitMilestone env s sender now escrowId i d = Inr s'" by (simp add: invoke_def)
    note eff = submitMilestone_effect [OF this]
    show "preserved s s' escrowId"
      by (rule preserved_milestone_upd [OF inv', where i = i])
        (use eff in \<open>auto simp: owed_def\<close>)
  next
    case (ApproveMilestone i v sg)
    with ok have "approveMilestone env s sender now escrowId i v sg = Inr s'" by (simp add: invoke_def)
    note eff = approveMilestone_effect [OF this]
    show "preserved s s' escrowId"
      by (rule preserved_pay [OF inv', where i = i and b = "amount (milestones s escrowId i)"])
        (use eff in \<open>auto\<close>)
  next
    case (RejectMilestone i r)
    with ok have "rejectMilestone env s sender now escrowId i r = Inr s'" by (simp add: invoke_def)
    note eff = rejectMilestone_effect [OF this]
    show "preserved s s' escrowId"
      by (rule preserved_milestone_upd [OF inv', where i = i])
        (use eff in \<open>auto simp: owed_def\<close>)
  next
    case (ResubmitMilestone i d)
    with ok have "resubmitMilestone env s sender now escrowId i d = Inr s'" by (simp add: invoke_def)
    note eff = resubmitMilestone_effect [OF this]
    show "preserved s s' escrowId"
      by (rule preserved_milestone_upd [OF inv', where i = i])
        (use eff in \<open>auto simp: owed_def\<close>)
  next
    case (DisputeMilestone i r)
    with ok have "disputeMilestone env s sender now escrowId i r = Inr s'" by (simp add: invoke_def)
    note eff = disputeMilestone_effect [OF this]
    show "preserved s s' escrowId"
      by (rule preserved_milestone_upd [OF inv', where i = i])
        (use eff in \<open>auto simp: owed_def\<close>)
  next
    case (ResolveDispute i b r)
    with ok have "resolveDispute env s sender now escrowId i b r = Inr s'" by (simp add: invoke_def)
    note eff = resolveDispute_effect [OF this]
    show "preserved s s' escrowId"
      by (rule preserved_pay [OF inv', where i = i and b = b])
        (use eff in \<open>auto\<close>)
  qed
qed

lemma preserved_trans:
  "preserved s s' k \<Longrightarrow> preserved s' s'' k \<Longrightarrow> preserved s s'' k"
  by (simp add: preserved_def)

lemma preserved_execute:
  assumes "conserved (escrows s k) (milestones s k)"
  shows "preserved s (execute env s t) k"
proof -
  obtain sender now escrowId c where t: "t = (sender, now, escrowId, c)"
    by (cases t) auto
  show ?thesis
  proof (cases "invoke env s sender now escrowId c")
    case (Inl err)
    with t assms show ?thesis by (simp add: execute_def preserved_refl)
  next
    case (Inr s')
    from preserved_invoke [OF this assms] Inr t show ?thesis by (simp add: execute_def)
  qed
qed

lemma preserved_run:
  "conserved (escrows s k) (milestones s k) \<Longrightarrow> preserved s (run env s ts) k"
proof (induction ts arbitrary: s)
  case Nil
  then show ?case by (simp add: run_def preserved_refl)
next
  case (Cons t ts)
  from preserved_execute [OF Cons.prems] have p: "preserved s (execute env s t) k" .
  then have "conserved (escrows (execute env s t) k) (milestones (execute env s t) k)"
    by (simp add: preserved_def)
  from Cons.IH [OF this] have "preserved (execute env s t) (run env (execute env s t) ts) k" .
  with p have "preserved s (run env (execute env s t) ts) k" by (rule preserved_trans)
  then show ?case by (simp add: run_def)
qed

lemma sum_newMilestones:
  "sum_list (map (\<lambda>i. f (newMilestones items i)) [0..<length items])
     = sum_list (map (\<lambda>i. f (zeroMilestone\<lparr>description := fst (items ! i), amount := snd (items ! i)\<rparr>)) [0..<length items])"
  by (rule arg_cong [where f = sum_list]) (simp add: newMilestones_def)

lemma sum_list_nth_upt: "sum_list (map (\<lambda>i. g (xs ! i)) [0..<length xs]) = sum_list (map g xs)"
proof -
  have "map (\<lambda>i. g (xs ! i)) [0..<length xs] = map g (map ((!) xs) [0..<length xs])"
    by simp
  then show ?thesis by (simp only: map_nth)
qed

lemma conserved_newEscrow:
  "conserved (escrows (newEscrow s k dep ben arbs tok fee items) k)
             (milestones (newEscrow s k dep ben arbs tok fee items) k)"
proof -
  have "sum_list (map (\<lambda>i. amount (newMilestones items i)) [0..<length items]) = sum_list (map snd items)"
    unfolding sum_newMilestones by (simp add: zeroMilestone_def sum_list_nth_upt)
  moreover have "sum_list (map (\<lambda>i. owed (newMilestones items i)) [0..<length items]) = sum_list (map snd items)"
    unfolding sum_newMilestones by (simp add: zeroMilestone_def owed_def sum_list_nth_upt)
  moreover have "mstatus (newMilestones items i) = NotStarted" for i
    by (simp add: newMilestones_def zeroMilestone_def)
  ultimately show ?thesis
    by (simp add: conserved_def newEscrow_def milestonesTotal_def outstanding_def)
qed

text \<open>
  Claim C1. Take any storage, put a new escrow in it whose total is the sum of its milestone
  amounts, and run any list of transactions (any senders, any times, any of the seven
  functions, on this escrow or on others; a reverted transaction changes nothing). In the
  storage reached, the escrow's \<open>paidAmount\<close> is at most its \<open>totalAmount\<close>, its milestone
  amounts still sum to \<open>totalAmount\<close>, and the total, the milestone count and every
  milestone amount are the ones it was created with.
\<close>

theorem conservation:
  "(let s' = run env (newEscrow s escrowId dep ben arbs tok fee items) ts;
        e = escrows s' escrowId
    in paidAmount e \<le> totalAmount e \<and>
       milestonesTotal (milestones s' escrowId) (milestoneCount e) = totalAmount e \<and>
       totalAmount e = sum_list (map snd items) \<and>
       milestoneCount e = length items \<and>
       map (\<lambda>i. amount (milestones s' escrowId i)) [0..<length items] = map snd items)"
proof -
  let ?s0 = "newEscrow s escrowId dep ben arbs tok fee items"
  let ?s' = "run env ?s0 ts"
  from preserved_run [OF conserved_newEscrow]
  have p: "preserved ?s0 ?s' escrowId" .
  have t0: "totalAmount (escrows ?s0 escrowId) = sum_list (map snd items)"
    and n0: "milestoneCount (escrows ?s0 escrowId) = length items"
    by (simp_all add: newEscrow_def)
  have a0: "map (\<lambda>i. amount (milestones ?s0 escrowId i)) [0..<length items] = map snd items"
    by (rule nth_equalityI) (simp_all add: newEscrow_def newMilestones_def)
  from p have c: "conserved (escrows ?s' escrowId) (milestones ?s' escrowId)"
    and t: "totalAmount (escrows ?s' escrowId) = totalAmount (escrows ?s0 escrowId)"
    and n: "milestoneCount (escrows ?s' escrowId) = milestoneCount (escrows ?s0 escrowId)"
    and a: "\<And>i. amount (milestones ?s' escrowId i) = amount (milestones ?s0 escrowId i)"
    by (simp_all add: preserved_def)
  from c have "paidAmount (escrows ?s' escrowId) \<le> totalAmount (escrows ?s' escrowId)"
    and "milestonesTotal (milestones ?s' escrowId) (milestoneCount (escrows ?s' escrowId))
           = totalAmount (escrows ?s' escrowId)"
    by (simp_all add: conserved_def)
  moreover have "map (\<lambda>i. amount (milestones ?s' escrowId i)) [0..<length items] = map snd items"
    using a0 by (simp only: a)
  ultimately show ?thesis using t t0 n n0 by (simp only: Let_def)
qed

section \<open>Disputes are not gated by the status of the escrow\<close>

text \<open>
  Claim C2 says that \<^verbatim>\<open>disputeMilestone\<close> succeeds only while the escrow is \<open>InProgress\<close>.
  The function tests the milestone and the time only. In escrow 7, both milestones are
  submitted and the depositor has disputed milestone 0, so the escrow is \<open>Disputed\<close>;
  the depositor's dispute of milestone 1 at time 5000 then succeeds all the same.
\<close>

theorem dispute_while_disputed:
  "status (escrows firstDisputed 7) = EscrowStatus.Disputed \<and>
   mstatus (milestones firstDisputed 7 1) = Submitted \<and>
   \<not> isl (disputeMilestone env0 firstDisputed 10 5000 7 1 ''incomplete'') \<and>
   mstatus (milestones
     (execute env0 firstDisputed (10, 5000, 7, DisputeMilestone 1 ''incomplete'')) 7 1)
     = MilestoneStatus.Disputed"
  by (simp add: example_defs)

text \<open>
  Claim C3 says that no run from a new escrow reaches two milestones that are \<open>Disputed\<close>
  at once. The run below does: the beneficiary starts work and submits both milestones,
  and the depositor disputes both.
\<close>

theorem two_disputed_milestones:
  "mstatus (milestones (run env0 twoMilestones
       [(20, 1000, 7, StartWork),
        (20, 2000, 7, SubmitMilestone 0 []),
        (20, 3000, 7, SubmitMilestone 1 []),
        (10, 4000, 7, DisputeMilestone 0 ''incomplete''),
        (10, 5000, 7, DisputeMilestone 1 ''incomplete'')]) 7 0) = MilestoneStatus.Disputed \<and>
   mstatus (milestones (run env0 twoMilestones
       [(20, 1000, 7, StartWork),
        (20, 2000, 7, SubmitMilestone 0 []),
        (20, 3000, 7, SubmitMilestone 1 []),
        (10, 4000, 7, DisputeMilestone 0 ''incomplete''),
        (10, 5000, 7, DisputeMilestone 1 ''incomplete'')]) 7 1) = MilestoneStatus.Disputed"
  by (simp add: example_defs)

section \<open>After the release\<close>


lemma invoke_frame:
  assumes ok: "invoke env s sender now escrowId c = Inr s'" and "k \<noteq> escrowId"
  shows "escrows s' k = escrows s k \<and> milestones s' k = milestones s k"
proof (cases c)
  case StartWork
  with ok have "startWork env s sender now escrowId = Inr s'" by (simp add: invoke_def)
  from startWork_effect [OF this] assms(2) show ?thesis by simp
next
  case (SubmitMilestone i d)
  with ok have "submitMilestone env s sender now escrowId i d = Inr s'" by (simp add: invoke_def)
  from submitMilestone_effect [OF this] assms(2) show ?thesis by simp
next
  case (ApproveMilestone i v sg)
  with ok have "approveMilestone env s sender now escrowId i v sg = Inr s'" by (simp add: invoke_def)
  from approveMilestone_effect [OF this] assms(2) show ?thesis by simp
next
  case (RejectMilestone i r)
  with ok have "rejectMilestone env s sender now escrowId i r = Inr s'" by (simp add: invoke_def)
  from rejectMilestone_effect [OF this] assms(2) show ?thesis by simp
next
  case (ResubmitMilestone i d)
  with ok have "resubmitMilestone env s sender now escrowId i d = Inr s'" by (simp add: invoke_def)
  from resubmitMilestone_effect [OF this] assms(2) show ?thesis by simp
next
  case (DisputeMilestone i r)
  with ok have "disputeMilestone env s sender now escrowId i r = Inr s'" by (simp add: invoke_def)
  from disputeMilestone_effect [OF this] assms(2) show ?thesis by simp
next
  case (ResolveDispute i b r)
  with ok have "resolveDispute env s sender now escrowId i b r = Inr s'" by (simp add: invoke_def)
  from resolveDispute_effect [OF this] assms(2) show ?thesis by simp
qed

text \<open>An invariant of one escrow that every successful call keeps is kept by every run.\<close>

lemma invariant_run:
  assumes step: "\<And>s sender now escrowId c s'.
      invoke env s sender now escrowId c = Inr s' \<Longrightarrow> P (escrows s k) (milestones s k) \<Longrightarrow>
      P (escrows s' k) (milestones s' k)"
  shows "P (escrows s k) (milestones s k) \<Longrightarrow> P (escrows (run env s ts) k) (milestones (run env s ts) k)"
proof (induction ts arbitrary: s)
  case Nil
  then show ?case by (simp add: run_def)
next
  case (Cons t ts)
  obtain sender now escrowId c where t: "t = (sender, now, escrowId, c)"
    by (cases t) auto
  have "P (escrows (execute env s t) k) (milestones (execute env s t) k)"
  proof (cases "invoke env s sender now escrowId c")
    case (Inl err)
    with t Cons.prems show ?thesis by (simp add: execute_def)
  next
    case (Inr s')
    from step [OF this Cons.prems] Inr t show ?thesis by (simp add: execute_def)
  qed
  from Cons.IH [OF this] show ?case by (simp add: run_def)
qed

lemma invoke_released:
  assumes ok: "invoke env s sender now k c = Inr s'"
    and "status (escrows s k) = Released \<longrightarrow> paidAmount (escrows s k) = totalAmount (escrows s k)"
  shows "status (escrows s' k) = Released \<longrightarrow> paidAmount (escrows s' k) = totalAmount (escrows s' k)"
proof (cases c)
  case StartWork
  with ok have "startWork env s sender now k = Inr s'" by (simp add: invoke_def)
  from startWork_effect [OF this] show ?thesis by simp
next
  case (SubmitMilestone i d)
  with ok have "submitMilestone env s sender now k i d = Inr s'" by (simp add: invoke_def)
  from submitMilestone_effect [OF this] assms(2) show ?thesis by simp
next
  case (ApproveMilestone i v sg)
  with ok have "approveMilestone env s sender now k i v sg = Inr s'" by (simp add: invoke_def)
  from approveMilestone_effect [OF this] show ?thesis by simp
next
  case (RejectMilestone i r)
  with ok have "rejectMilestone env s sender now k i r = Inr s'" by (simp add: invoke_def)
  from rejectMilestone_effect [OF this] assms(2) show ?thesis by simp
next
  case (ResubmitMilestone i d)
  with ok have "resubmitMilestone env s sender now k i d = Inr s'" by (simp add: invoke_def)
  from resubmitMilestone_effect [OF this] assms(2) show ?thesis by simp
next
  case (DisputeMilestone i r)
  with ok have "disputeMilestone env s sender now k i r = Inr s'" by (simp add: invoke_def)
  from disputeMilestone_effect [OF this] show ?thesis by simp
next
  case (ResolveDispute i b r)
  with ok have "resolveDispute env s sender now k i b r = Inr s'" by (simp add: invoke_def)
  from resolveDispute_effect [OF this] show ?thesis by simp
qed

lemma accounted_invoke:
  assumes ok: "invoke env s sender now escrowId c = Inr s'"
    and st: "accounted (escrows s k) (milestones s k)"
  shows "accounted (escrows s' k) (milestones s' k)"
proof -
  from st have c: "conserved (escrows s k) (milestones s k)" by (simp add: accounted_def)
  from preserved_invoke [OF ok c] have p: "preserved s s' k" .
  have "status (escrows s' k) = Released \<longrightarrow> paidAmount (escrows s' k) = totalAmount (escrows s' k)"
  proof (cases "k = escrowId")
    case True
    with ok st invoke_released [of env s sender now k c s'] show ?thesis
      by (simp add: accounted_def)
  next
    case False
    from invoke_frame [OF ok False] st show ?thesis by (simp add: accounted_def)
  qed
  with p show ?thesis by (simp add: accounted_def preserved_def)
qed

lemma positive_invoke:
  assumes ok: "invoke env s sender now escrowId c = Inr s'"
    and st: "conserved (escrows s k) (milestones s k) \<and> positive (escrows s k) (milestones s k)"
  shows "conserved (escrows s' k) (milestones s' k) \<and> positive (escrows s' k) (milestones s' k)"
proof -
  from st preserved_invoke [OF ok] have "preserved s s' k" by simp
  with st show ?thesis by (simp add: preserved_def positive_def)
qed

lemma sum_list_upt_zero:
  assumes "sum_list (map f [0..<n]) = (0::nat)" and "i < n"
  shows "f i = 0"
  using assms by (simp add: sum_list_eq_0_iff)

text \<open>In an escrow that is paid in full, a milestone that is not paid has amount 0.\<close>

lemma paid_in_full:
  assumes "conserved e ms" and "paidAmount e = totalAmount e"
    and "mstatus (ms i) \<noteq> NotStarted"
  shows "owed (ms i) = 0"
proof -
  from assms(1,3) have i: "i < milestoneCount e"
    unfolding conserved_def by (meson not_le)
  from assms(1,2) have "outstanding ms (milestoneCount e) = 0"
    by (simp add: conserved_def)
  then show ?thesis unfolding outstanding_def using i by (rule sum_list_upt_zero)
qed

lemma paidUp_invoke:
  assumes ok: "invoke env s sender now escrowId c = Inr s'"
    and st: "paidUp (escrows s k) (milestones s k)"
  shows "paidUp (escrows s' k) (milestones s' k)"
proof (cases "k = escrowId")
  case False
  from invoke_frame [OF ok False] st show ?thesis by simp
next
  case True
  from st have c: "conserved (escrows s k) (milestones s k)"
    and full: "paidAmount (escrows s k) = totalAmount (escrows s k)"
    and stat: "status (escrows s k) = Released \<or> status (escrows s k) = EscrowStatus.Disputed"
    by (simp_all add: paidUp_def)
  from preserved_invoke [OF ok c] have c': "conserved (escrows s' k) (milestones s' k)"
    by (simp add: preserved_def)
  show ?thesis
  proof (cases c)
    case StartWork
    with ok True have "startWork env s sender now k = Inr s'" by (simp add: invoke_def)
    from startWork_effect [OF this] stat show ?thesis by auto
  next
    case (SubmitMilestone i d)
    with ok True have "submitMilestone env s sender now k i d = Inr s'" by (simp add: invoke_def)
    from submitMilestone_effect [OF this] stat show ?thesis by auto
  next
    case (ApproveMilestone i v sg)
    with ok True have "approveMilestone env s sender now k i v sg = Inr s'" by (simp add: invoke_def)
    from approveMilestone_effect [OF this] stat show ?thesis by auto
  next
    case (RejectMilestone i r)
    with ok True have "rejectMilestone env s sender now k i r = Inr s'" by (simp add: invoke_def)
    from rejectMilestone_effect [OF this] stat show ?thesis by auto
  next
    case (ResubmitMilestone i d)
    with ok True have "resubmitMilestone env s sender now k i d = Inr s'" by (simp add: invoke_def)
    from resubmitMilestone_effect [OF this] stat show ?thesis by auto
  next
    case (DisputeMilestone i r)
    with ok True have "disputeMilestone env s sender now k i r = Inr s'" by (simp add: invoke_def)
    from disputeMilestone_effect [OF this] c' full show ?thesis by (simp add: paidUp_def)
  next
    case (ResolveDispute i b r)
    with ok True have "resolveDispute env s sender now k i b r = Inr s'" by (simp add: invoke_def)
    note eff = resolveDispute_effect [OF this]
    from eff have "mstatus (milestones s k i) \<noteq> NotStarted" by simp
    from paid_in_full [OF c full this] eff have "b = 0" by (simp add: owed_def)
    with eff c' full show ?thesis by (simp add: paidUp_def)
  qed
qed

lemma paidUp_blocks:
  assumes "paidUp (escrows s k) (milestones s k)"
  shows "isl (approveMilestone env s sender now k i v sg) \<and>
         isl (rejectMilestone env s sender now k i r)"
  using assms
  by (auto simp: paidUp_def approveMilestone_def rejectMilestone_def require_def Let_def)

lemma released_blocks:
  assumes "status (escrows s k) = Released"
    and "\<And>i. mstatus (milestones s k i) \<noteq> Submitted"
  shows "isl (invoke env s sender now k c)"
  using assms
  by (cases c) (simp_all add: invoke_def call_defs require_def Let_def)

lemma positive_released:
  assumes "conserved e ms" and "paidAmount e = totalAmount e" and "positive e ms"
  shows "mstatus (ms i) \<noteq> Submitted"
proof
  assume a: "mstatus (ms i) = Submitted"
  then have n: "mstatus (ms i) \<noteq> NotStarted" by simp
  from paid_in_full [OF assms(1,2) n] a have z: "amount (ms i) = 0" by (simp add: owed_def)
  from assms(1) n have "i < milestoneCount e" unfolding conserved_def by (meson not_le)
  with assms(3) have "0 < amount (ms i)" unfolding positive_def by blast
  with z show False by simp
qed

lemma final_invoke:
  assumes ok: "invoke env s sender now escrowId c = Inr s'"
    and st: "finished (escrows s k) (milestones s k)"
  shows "escrows s' k = escrows s k \<and> milestones s' k = milestones s k"
proof -
  have "k \<noteq> escrowId"
  proof
    assume "k = escrowId"
    moreover from st have "status (escrows s k) = Released" by (simp add: finished_def)
    moreover from st have "mstatus (milestones s k i) \<noteq> Submitted" for i
      using positive_released [of "escrows s k" "milestones s k" i] by (simp add: finished_def)
    ultimately have "isl (invoke env s sender now escrowId c)"
      using released_blocks [of s k env sender now c] by simp
    with ok show False by simp
  qed
  with ok show ?thesis by (rule invoke_frame)
qed

lemma final_run:
  assumes "finished (escrows s k) (milestones s k)"
  shows "escrows (run env s ts) k = escrows s k \<and> milestones (run env s ts) k = milestones s k"
proof -
  let ?P = "\<lambda>e ms. e = escrows s k \<and> ms = milestones s k"
  have "?P (escrows (run env s ts) k) (milestones (run env s ts) k)"
  proof (rule invariant_run [where P = ?P])
    fix t sender now escrowId c t'
    assume "invoke env t sender now escrowId c = Inr t'"
      and "escrows t k = escrows s k \<and> milestones t k = milestones s k"
    with final_invoke [of env t sender now escrowId c t' k] assms
    show "escrows t' k = escrows s k \<and> milestones t' k = milestones s k" by simp
  qed simp
  then show ?thesis .
qed

lemma accounted_newEscrow:
  "accounted (escrows (newEscrow s k dep ben arbs tok fee items) k)
             (milestones (newEscrow s k dep ben arbs tok fee items) k)"
  using conserved_newEscrow [of s k dep ben arbs tok fee items]
  by (simp add: accounted_def newEscrow_def)

lemma positive_newEscrow:
  assumes "\<forall>x\<in>set items. 0 < snd x"
  shows "positive (escrows (newEscrow s k dep ben arbs tok fee items) k)
                  (milestones (newEscrow s k dep ben arbs tok fee items) k)"
  using assms by (simp add: positive_def newEscrow_def newMilestones_def)

text \<open>
  What does hold after the release. Let \<open>s1\<close> be a storage reached from a new escrow in
  which the escrow is \<open>Released\<close>, and \<open>s2\<close> any storage reached from \<open>s1\<close> by further
  transactions. In \<open>s2\<close> every \<^verbatim>\<open>approveMilestone\<close> and \<^verbatim>\<open>rejectMilestone\<close> on the escrow
  reverts, and so does every \<^verbatim>\<open>disputeMilestone\<close> of a milestone whose amount is positive:
  only a milestone of amount 0 can still be disputed. If every milestone amount is
  positive, the escrow and its milestones never change again.
\<close>

lemma after_release:
  assumes "s1 = run env (newEscrow s k dep ben arbs tok fee items) ts"
    and "status (escrows s1 k) = Released"
    and "s2 = run env s1 ts'"
  shows "isl (approveMilestone env s2 sender now k i v sg) \<and>
         isl (rejectMilestone env s2 sender now k i r) \<and>
         execute env s2 (sender, now, k, ApproveMilestone i v sg) = s2 \<and>
         execute env s2 (sender, now, k, RejectMilestone i r) = s2 \<and>
         (0 < amount (milestones s2 k i) \<longrightarrow>
            isl (disputeMilestone env s2 sender now k i r) \<and>
            execute env s2 (sender, now, k, DisputeMilestone i r) = s2) \<and>
         ((\<forall>x\<in>set items. 0 < snd x) \<longrightarrow>
            escrows s2 k = escrows s1 k \<and> milestones s2 k = milestones s1 k \<and>
            isl (disputeMilestone env s2 sender now k i r) \<and>
            execute env s2 (sender, now, k, DisputeMilestone i r) = s2)"
proof -
  let ?s0 = "newEscrow s k dep ben arbs tok fee items"
  have "accounted (escrows (run env ?s0 ts) k) (milestones (run env ?s0 ts) k)"
    by (rule invariant_run [where P = accounted, OF accounted_invoke accounted_newEscrow])
  with assms(1,2) have up1: "paidUp (escrows s1 k) (milestones s1 k)"
    by (simp add: accounted_def paidUp_def)
  have "paidUp (escrows (run env s1 ts') k) (milestones (run env s1 ts') k)"
    by (rule invariant_run [where P = paidUp, OF paidUp_invoke up1])
  with assms(3) have up2: "paidUp (escrows s2 k) (milestones s2 k)" by simp
  from paidUp_blocks [OF up2] have f: "isl (approveMilestone env s2 sender now k i v sg)"
    "isl (rejectMilestone env s2 sender now k i r)" by simp_all
  then have x: "execute env s2 (sender, now, k, ApproveMilestone i v sg) = s2"
    "execute env s2 (sender, now, k, RejectMilestone i r) = s2"
    by (auto simp: execute_def invoke_def split: sum.splits)
  have one: "isl (disputeMilestone env s2 sender now k i r) \<and>
        execute env s2 (sender, now, k, DisputeMilestone i r) = s2"
    if amt: "0 < amount (milestones s2 k i)"
  proof -
    have "mstatus (milestones s2 k i) \<noteq> Submitted"
    proof
      assume a: "mstatus (milestones s2 k i) = Submitted"
      then have "mstatus (milestones s2 k i) \<noteq> NotStarted" by simp
      with up2 have "owed (milestones s2 k i) = 0"
        using paid_in_full [of "escrows s2 k" "milestones s2 k" i] by (simp add: paidUp_def)
      with a amt show False by (simp add: owed_def)
    qed
    then have d: "isl (disputeMilestone env s2 sender now k i r)"
      by (simp add: disputeMilestone_def require_def Let_def)
    then have "execute env s2 (sender, now, k, DisputeMilestone i r) = s2"
      by (auto simp: execute_def invoke_def split: sum.splits)
    with d show ?thesis by simp
  qed
  have "escrows s2 k = escrows s1 k \<and> milestones s2 k = milestones s1 k \<and>
        isl (disputeMilestone env s2 sender now k i r) \<and>
        execute env s2 (sender, now, k, DisputeMilestone i r) = s2"
    if pos: "\<forall>x\<in>set items. 0 < snd x"
  proof -
    let ?Q = "\<lambda>e ms. conserved e ms \<and> positive e ms"
    have q0: "?Q (escrows ?s0 k) (milestones ?s0 k)"
      using conserved_newEscrow [of s k dep ben arbs tok fee items]
        positive_newEscrow [OF pos, of s k dep ben arbs tok fee] by simp
    have "?Q (escrows (run env ?s0 ts) k) (milestones (run env ?s0 ts) k)"
      by (rule invariant_run [where P = ?Q, OF positive_invoke q0])
    with assms(1,2) up1 have fin: "finished (escrows s1 k) (milestones s1 k)"
      by (simp add: finished_def paidUp_def)
    from final_run [OF fin] assms(3)
    have same: "escrows s2 k = escrows s1 k \<and> milestones s2 k = milestones s1 k" by simp
    with fin have fin2: "finished (escrows s2 k) (milestones s2 k)" by simp
    then have rel2: "status (escrows s2 k) = Released" by (simp add: finished_def)
    from fin2 have ns: "mstatus (milestones s2 k j) \<noteq> Submitted" for j
      using positive_released [of "escrows s2 k" "milestones s2 k" j] by (simp add: finished_def)
    from released_blocks [OF rel2 ns, of env sender now "DisputeMilestone i r"]
    have d: "isl (disputeMilestone env s2 sender now k i r)" by (simp add: invoke_def)
    then have "execute env s2 (sender, now, k, DisputeMilestone i r) = s2"
      by (auto simp: execute_def invoke_def split: sum.splits)
    with same d show ?thesis by simp
  qed
  with f x one show ?thesis by simp
qed

section \<open>Resolving a dispute\<close>

text \<open>
  Claim C5. Let a participant call \<^verbatim>\<open>resolveDispute\<close> through the contract-wide modifiers
  on an escrow that is \<open>Disputed\<close>, for a milestone that is \<open>Disputed\<close>, with
  \<open>beneficiaryAmount\<close> at most the milestone amount, while \<open>paidAmount\<close> does not overflow,
  the custody counter of the token covers the milestone and the custody adapter accepts
  the payments. Then the call succeeds, and with
  \<open>refundAmount = amount - beneficiaryAmount\<close>: the payments made are \<open>beneficiaryAmount\<close>
  to the beneficiary if it is positive, then \<open>refundAmount\<close> to the depositor if it is
  positive; \<open>paidAmount\<close> grows by exactly \<open>beneficiaryAmount\<close>; the custody counter falls
  by the milestone amount; the milestone is \<open>Resolved\<close>; the escrow is \<open>Released\<close> if
  \<open>paidAmount\<close> has reached \<open>totalAmount\<close> and \<open>InProgress\<close> otherwise.
\<close>

theorem resolveDispute_split:
  assumes "e = escrows s escrowId" and "m = milestones s escrowId i"
    and "refundAmount = amount m - beneficiaryAmount"
    and "onlyEscrowParticipant s sender escrowId"
    and "validEscrow env s escrowId" and "nonReentrant env s" and "whenNotPaused env s"
    and "status e = EscrowStatus.Disputed" and "mstatus m = MilestoneStatus.Disputed"
    and "beneficiaryAmount \<le> amount m"
    and "paidAmount e + beneficiaryAmount \<le> MAX_UINT256"
    and "amount m \<le> escrowedAmount s (token e)"
    and "beneficiaryAmount > 0 \<longrightarrow> transferAccepted env (token e) (beneficiary e) beneficiaryAmount"
    and "refundAmount > 0 \<longrightarrow> transferAccepted env (token e) (depositor e) refundAmount"
  shows "\<exists>s'. resolveDispute env s sender now escrowId i beneficiaryAmount r = Inr s' \<and>
           transfers s' = transfers s
             @ (if beneficiaryAmount > 0 then [(token e, beneficiary e, beneficiaryAmount)] else [])
             @ (if refundAmount > 0 then [(token e, depositor e, refundAmount)] else []) \<and>
           paidAmount (escrows s' escrowId) = paidAmount e + beneficiaryAmount \<and>
           escrowedAmount s' (token e) = escrowedAmount s (token e) - amount m \<and>
           mstatus (milestones s' escrowId i) = Resolved \<and>
           status (escrows s' escrowId) =
             (if paidAmount e + beneficiaryAmount = totalAmount e then Released else InProgress)"
proof -
  have "\<exists>s'. resolveDispute env s sender now escrowId i beneficiaryAmount r = Inr s'"
  proof (cases "beneficiaryAmount = 0")
    case True
    with assms show ?thesis by (auto simp: resolveDispute_def op_defs)
  next
    case False
    with assms show ?thesis by (auto simp: resolveDispute_def op_defs)
  qed
  then obtain s' where ok: "resolveDispute env s sender now escrowId i beneficiaryAmount r = Inr s'" ..
  note eff = resolveDispute_effect [OF ok]
  from eff assms(1-3) have
    "transfers s' = transfers s
             @ (if beneficiaryAmount > 0 then [(token e, beneficiary e, beneficiaryAmount)] else [])
             @ (if refundAmount > 0 then [(token e, depositor e, refundAmount)] else [])"
    and "paidAmount (escrows s' escrowId) = paidAmount e + beneficiaryAmount"
    and "escrowedAmount s' (token e) = escrowedAmount s (token e) - amount m"
    and "mstatus (milestones s' escrowId i) = Resolved"
    and "status (escrows s' escrowId) =
             (if paidAmount e + beneficiaryAmount = totalAmount e then Released else InProgress)"
    by simp_all
  with ok show ?thesis by blast
qed

theorem resolveDispute_split_witness:
  "status (escrows firstDisputed 7) = EscrowStatus.Disputed \<and>
   mstatus (milestones firstDisputed 7 0) = MilestoneStatus.Disputed \<and>
   amount (milestones firstDisputed 7 0) = 100 \<and>
   (\<exists>s'. resolveDispute env0 firstDisputed 30 5000 7 0 40 ''partly done'' = Inr s' \<and>
      transfers s' = [(40, 20, 40), (40, 10, 60)] \<and>
      paidAmount (escrows s' 7) = 40 \<and>
      escrowedAmount s' 40 = 200 \<and>
      mstatus (milestones s' 7 0) = Resolved \<and>
      status (escrows s' 7) = InProgress)"
proof -
  have e: "escrows firstDisputed 7 =
      \<lparr>depositor = 10, beneficiary = 20, arbiters = [30], token = 40, totalAmount = 300,
       paidAmount = 0, platformFee = 3, status = EscrowStatus.Disputed, workStarted = True,
       milestoneCount = 2\<rparr>"
    by (simp add: example_defs)
  have m: "milestones firstDisputed 7 0 =
      \<lparr>description = ''design'', amount = 100, mstatus = MilestoneStatus.Disputed,
       submittedAt = 2000, approvedAt = 0, disputedAt = 4000, disputedBy = 10,
       disputeReason = ''incomplete''\<rparr>"
    by (simp add: example_defs)
  have c: "escrowedAmount firstDisputed 40 = 300" and t: "transfers firstDisputed = []"
    by (simp_all add: example_defs)
  have p: "onlyEscrowParticipant firstDisputed 30 7"
    by (simp add: onlyEscrowParticipant_def e)
  have g: "validEscrow env0 firstDisputed 7" "nonReentrant env0 firstDisputed"
    "whenNotPaused env0 firstDisputed"
    and acc: "transferAccepted env0 tok recipient amt" for tok recipient amt
    by (simp_all add: env0_def)
  have "\<exists>s'. resolveDispute env0 firstDisputed 30 5000 7 0 40 ''partly done'' = Inr s' \<and>
      transfers s' = transfers firstDisputed
        @ (if (40::nat) > 0 then [(token (escrows firstDisputed 7), beneficiary (escrows firstDisputed 7), 40)] else [])
        @ (if amount (milestones firstDisputed 7 0) - 40 > 0
           then [(token (escrows firstDisputed 7), depositor (escrows firstDisputed 7),
                  amount (milestones firstDisputed 7 0) - 40)] else []) \<and>
      paidAmount (escrows s' 7) = paidAmount (escrows firstDisputed 7) + 40 \<and>
      escrowedAmount s' (token (escrows firstDisputed 7)) =
        escrowedAmount firstDisputed (token (escrows firstDisputed 7))
          - amount (milestones firstDisputed 7 0) \<and>
      mstatus (milestones s' 7 0) = Resolved \<and>
      status (escrows s' 7) =
        (if paidAmount (escrows firstDisputed 7) + 40 = totalAmount (escrows firstDisputed 7)
         then Released else InProgress)"
    by (rule resolveDispute_split [OF refl refl refl p g])
      (simp_all add: e m c acc MAX_UINT256_def)
  then have "\<exists>s'. resolveDispute env0 firstDisputed 30 5000 7 0 40 ''partly done'' = Inr s' \<and>
      transfers s' = [(40, 20, 40), (40, 10, 60)] \<and>
      paidAmount (escrows s' 7) = 40 \<and>
      escrowedAmount s' 40 = 200 \<and>
      mstatus (milestones s' 7 0) = Resolved \<and>
      status (escrows s' 7) = InProgress"
    by (simp add: e m c t)
  then show ?thesis by (simp add: e m)
qed

text \<open>
  Claim C6 as stated: an even split is recorded as a tie. On the milestone of 100 of
  escrow 7, a resolution with \<open>beneficiaryAmount = 50\<close> records the depositor (address 10)
  as the winner.
\<close>

theorem even_split_goes_to_depositor:
  "depositor (escrows firstDisputed 7) = 10 \<and>
   beneficiary (escrows firstDisputed 7) = 20 \<and>
   amount (milestones firstDisputed 7 0) = 100 \<and>
   \<not> isl (resolveDispute env0 firstDisputed 30 5000 7 0 50 ''half done'') \<and>
   mstatus (milestones
     (execute env0 firstDisputed (30, 5000, 7, ResolveDispute 0 50 ''half done'')) 7 0)
     = Resolved \<and>
   disputedBy (milestones
     (execute env0 firstDisputed (30, 5000, 7, ResolveDispute 0 50 ''half done'')) 7 0) = 10"
  by (simp add: example_defs)

text \<open>
  Claim C6, amended: after a successful \<^verbatim>\<open>resolveDispute\<close> the recorded winner
  (\<open>disputedBy\<close>) is the beneficiary when \<open>beneficiaryAmount\<close> is strictly larger than
  \<open>refundAmount\<close>, and the depositor otherwise: when \<open>refundAmount\<close> is strictly larger,
  and also on an even split.
\<close>

theorem resolveDispute_winner:
  assumes "resolveDispute env s sender now escrowId i beneficiaryAmount r = Inr s'"
    and "refundAmount = amount (milestones s escrowId i) - beneficiaryAmount"
  shows "beneficiaryAmount + refundAmount = amount (milestones s escrowId i) \<and>
         disputedBy (milestones s' escrowId i) =
           (if beneficiaryAmount > refundAmount then beneficiary (escrows s escrowId)
            else depositor (escrows s escrowId))"
  using resolveDispute_effect [OF assms(1)] assms(2) by simp

theorem resolveDispute_winner_witness:
  "(\<exists>s'. resolveDispute env0 firstDisputed 30 5000 7 0 70 ''mostly done'' = Inr s' \<and>
      disputedBy (milestones s' 7 0) = 20) \<and>
   (\<exists>s'. resolveDispute env0 firstDisputed 30 5000 7 0 30 ''barely begun'' = Inr s' \<and>
      disputedBy (milestones s' 7 0) = 10) \<and>
   (\<exists>s'. resolveDispute env0 firstDisputed 30 5000 7 0 50 ''half done'' = Inr s' \<and>
      disputedBy (milestones s' 7 0) = 10)"
proof -
  have d: "depositor (escrows firstDisputed 7) = 10" "beneficiary (escrows firstDisputed 7) = 20"
    "amount (milestones firstDisputed 7 0) = 100"
    by (simp_all add: example_defs)
  have ok: "\<exists>s'. resolveDispute env0 firstDisputed 30 5000 7 0 b r = Inr s'" if "b \<le> 100" and "0 < b" and "b < 100" for b r
    using that by (simp add: example_defs)
  from ok [of 70 "''mostly done''"] obtain s1
    where s1: "resolveDispute env0 firstDisputed 30 5000 7 0 70 ''mostly done'' = Inr s1" by auto
  from ok [of 30 "''barely begun''"] obtain s2
    where s2: "resolveDispute env0 firstDisputed 30 5000 7 0 30 ''barely begun'' = Inr s2" by auto
  from ok [of 50 "''half done''"] obtain s3
    where s3: "resolveDispute env0 firstDisputed 30 5000 7 0 50 ''half done'' = Inr s3" by auto
  from resolveDispute_winner [OF s1 refl] d have "disputedBy (milestones s1 7 0) = 20" by simp
  moreover from resolveDispute_winner [OF s2 refl] d have "disputedBy (milestones s2 7 0) = 10" by simp
  moreover from resolveDispute_winner [OF s3 refl] d have "disputedBy (milestones s3 7 0) = 10" by simp
  ultimately show ?thesis using s1 s2 s3 by blast
qed

text \<open>
  Claim C8 says that for every disputed milestone of amount \<open>m\<close>, \<^verbatim>\<open>resolveDispute\<close> with
  \<open>beneficiaryAmount > m\<close> fails with \<open>InvalidAllocation\<close>. In escrow 7 the depositor has
  disputed both milestones and an arbiter has resolved milestone 0, which sets the escrow
  back to \<open>InProgress\<close>: milestone 1, of amount 200, is still \<open>Disputed\<close>. A resolution of
  milestone 1 with \<open>beneficiaryAmount = 250\<close> by the arbiter then stops at the test of the
  escrow status and fails with \<open>InvalidState\<close>.
\<close>

theorem over_allocation_not_in_dispute:
  "mstatus (milestones oneResolved 7 1) = MilestoneStatus.Disputed \<and>
   amount (milestones oneResolved 7 1) = 200 \<and>
   status (escrows oneResolved 7) = InProgress \<and>
   onlyEscrowParticipant oneResolved 30 7 \<and>
   resolveDispute env0 oneResolved 30 7000 7 1 250 ''all of it'' = Inl InvalidState"
  by (simp add: example_defs)

text \<open>
  What does hold: when \<open>beneficiaryAmount\<close> exceeds the amount of a disputed milestone,
  \<^verbatim>\<open>resolveDispute\<close> reverts and the transaction leaves the whole storage as it was: no
  payment is logged, \<open>paidAmount\<close>, the custody counters and both statuses are unchanged.
  When the call reaches the allocation test (the sender is a participant, the
  contract-wide modifiers pass, the escrow is \<open>Disputed\<close>), the error is
  \<open>InvalidAllocation\<close>.
\<close>

lemma over_allocation_reverts:
  assumes "mstatus (milestones s escrowId i) = MilestoneStatus.Disputed"
    and "amount (milestones s escrowId i) < b"
  shows "isl (resolveDispute env s sender now escrowId i b r) \<and>
         execute env s (sender, now, escrowId, ResolveDispute i b r) = s \<and>
         (onlyEscrowParticipant s sender escrowId \<and> validEscrow env s escrowId \<and>
          nonReentrant env s \<and> whenNotPaused env s \<and>
          status (escrows s escrowId) = EscrowStatus.Disputed \<longrightarrow>
            resolveDispute env s sender now escrowId i b r = Inl InvalidAllocation)"
proof -
  have "isl (resolveDispute env s sender now escrowId i b r)"
    using assms by (simp add: resolveDispute_def require_def Let_def)
  then show ?thesis
    using assms
    by (auto simp: execute_def invoke_def resolveDispute_def require_def Let_def
        split: sum.splits)
qed

section \<open>The dispute window\<close>

text \<open>
  Claim C7. For a \<open>Submitted\<close> milestone and a call by the depositor that passes the
  contract-wide modifiers, with \<open>deadline = submittedAt + DISPUTE_PERIOD\<close> a \<^verbatim>\<open>uint256\<close>
  value: \<^verbatim>\<open>disputeMilestone\<close> at time \<open>deadline\<close> succeeds, and at time \<open>deadline + 1\<close> it
  fails with \<open>WindowExpired\<close> and the transaction leaves the storage as it was.
\<close>

theorem dispute_window:
  assumes "sender = depositor (escrows s escrowId)"
    and "validEscrow env s escrowId" and "nonReentrant env s" and "whenNotPaused env s"
    and "mstatus (milestones s escrowId i) = Submitted"
    and "deadline = submittedAt (milestones s escrowId i) + DISPUTE_PERIOD env"
    and "deadline \<le> MAX_UINT256"
  shows "(\<exists>s'. disputeMilestone env s sender deadline escrowId i r = Inr s') \<and>
         disputeMilestone env s sender (deadline + 1) escrowId i r = Inl WindowExpired \<and>
         execute env s (sender, deadline + 1, escrowId, DisputeMilestone i r) = s"
  using assms
  by (simp add: disputeMilestone_def onlyDepositor_def op_defs execute_def invoke_def)

theorem dispute_window_witness:
  "depositor (escrows bothSubmitted 7) = 10 \<and>
   mstatus (milestones bothSubmitted 7 0) = Submitted \<and>
   submittedAt (milestones bothSubmitted 7 0) + DISPUTE_PERIOD env0 = 606800 \<and>
   (\<exists>s'. disputeMilestone env0 bothSubmitted 10 606800 7 0 ''incomplete'' = Inr s') \<and>
   disputeMilestone env0 bothSubmitted 10 606801 7 0 ''incomplete'' = Inl WindowExpired \<and>
   execute env0 bothSubmitted (10, 606801, 7, DisputeMilestone 0 ''incomplete'') = bothSubmitted"
proof -
  have d: "depositor (escrows bothSubmitted 7) = 10"
    and m: "mstatus (milestones bothSubmitted 7 0) = Submitted"
    and t: "submittedAt (milestones bothSubmitted 7 0) + DISPUTE_PERIOD env0 = 606800"
    by (simp_all add: example_defs)
  have g: "validEscrow env0 bothSubmitted 7" "nonReentrant env0 bothSubmitted"
    "whenNotPaused env0 bothSubmitted"
    by (simp_all add: env0_def)
  have b: "(606800::nat) \<le> MAX_UINT256" by (simp add: MAX_UINT256_def)
  from dispute_window [OF d [symmetric] g m t [symmetric] b, of "''incomplete''"]
  have "(\<exists>s'. disputeMilestone env0 bothSubmitted 10 606800 7 0 ''incomplete'' = Inr s') \<and>
   disputeMilestone env0 bothSubmitted 10 606801 7 0 ''incomplete'' = Inl WindowExpired \<and>
   execute env0 bothSubmitted (10, 606801, 7, DisputeMilestone 0 ''incomplete'') = bothSubmitted"
    by simp
  with d m t show ?thesis by (intro conjI) simp_all
qed

section \<open>Starting work\<close>

text \<open>
  Claim C9. For a call that passes the contract-wide modifiers and does not overflow the
  fee total of the token: \<^verbatim>\<open>startWork\<close> succeeds exactly when the sender is the
  beneficiary, the escrow is \<open>Pending\<close> and \<open>workStarted\<close> is false. After a success
  \<open>workStarted\<close> is true, the status is \<open>InProgress\<close>, a nonzero \<open>platformFee\<close> has been
  added to \<open>totalFeesByToken\<close> of the escrow's token (and nothing else in that table has
  changed), and a second call on the escrow fails, with \<open>InvalidState\<close> when it passes the
  modifiers. No other function of the contract changes \<open>totalFeesByToken\<close>.
\<close>

theorem startWork_spec:
  assumes "validEscrow env s escrowId" and "nonReentrant env s" and "whenNotPaused env s"
    and "e = escrows s escrowId"
    and "totalFeesByToken s (token e) + platformFee e \<le> MAX_UINT256"
  shows "((\<exists>s'. startWork env s sender now escrowId = Inr s') \<longleftrightarrow>
            sender = beneficiary e \<and> status e = Pending \<and> \<not> workStarted e) \<and>
         (\<forall>s'. startWork env s sender now escrowId = Inr s' \<longrightarrow>
            workStarted (escrows s' escrowId) \<and>
            status (escrows s' escrowId) = InProgress \<and>
            totalFeesByToken s' =
              (if platformFee e > 0
               then (totalFeesByToken s)(token e := totalFeesByToken s (token e) + platformFee e)
               else totalFeesByToken s) \<and>
            isl (startWork env s' sender' now' escrowId) \<and>
            (validEscrow env s' escrowId \<and> nonReentrant env s' \<and> whenNotPaused env s' \<and>
             sender' = sender \<longrightarrow>
               startWork env s' sender' now' escrowId = Inl InvalidState)) \<and>
         (\<forall>c k caller s'. c \<noteq> StartWork \<and> invoke env s caller now k c = Inr s' \<longrightarrow>
            totalFeesByToken s' = totalFeesByToken s)"
proof (intro conjI allI impI)
  show "(\<exists>s'. startWork env s sender now escrowId = Inr s') \<longleftrightarrow>
            sender = beneficiary e \<and> status e = Pending \<and> \<not> workStarted e"
    using assms by (auto simp: startWork_def onlyBeneficiary_def op_defs)
next
  fix s' assume ok: "startWork env s sender now escrowId = Inr s'"
  note eff = startWork_effect [OF ok]
  from eff assms(4) show "workStarted (escrows s' escrowId)"
    and "status (escrows s' escrowId) = InProgress" by simp_all
  from eff assms(4) show "totalFeesByToken s' =
              (if platformFee e > 0
               then (totalFeesByToken s)(token e := totalFeesByToken s (token e) + platformFee e)
               else totalFeesByToken s)"
    by auto
  from eff show "isl (startWork env s' sender' now' escrowId)"
    by (simp add: startWork_def onlyBeneficiary_def op_defs)
  assume "validEscrow env s' escrowId \<and> nonReentrant env s' \<and> whenNotPaused env s' \<and> sender' = sender"
  with eff show "startWork env s' sender' now' escrowId = Inl InvalidState"
    by (simp add: startWork_def onlyBeneficiary_def op_defs)
next
  fix c k caller s'
  assume a: "c \<noteq> StartWork \<and> invoke env s caller now k c = Inr s'"
  show "totalFeesByToken s' = totalFeesByToken s"
  proof (cases c)
    case StartWork
    with a show ?thesis by simp
  next
    case (SubmitMilestone i d)
    with a have "submitMilestone env s caller now k i d = Inr s'" by (simp add: invoke_def)
    from submitMilestone_effect [OF this] show ?thesis by simp
  next
    case (ApproveMilestone i v sg)
    with a have "approveMilestone env s caller now k i v sg = Inr s'" by (simp add: invoke_def)
    from approveMilestone_effect [OF this] show ?thesis by simp
  next
    case (RejectMilestone i r)
    with a have "rejectMilestone env s caller now k i r = Inr s'" by (simp add: invoke_def)
    from rejectMilestone_effect [OF this] show ?thesis by simp
  next
    case (ResubmitMilestone i d)
    with a have "resubmitMilestone env s caller now k i d = Inr s'" by (simp add: invoke_def)
    from resubmitMilestone_effect [OF this] show ?thesis by simp
  next
    case (DisputeMilestone i r)
    with a have "disputeMilestone env s caller now k i r = Inr s'" by (simp add: invoke_def)
    from disputeMilestone_effect [OF this] show ?thesis by simp
  next
    case (ResolveDispute i b r)
    with a have "resolveDispute env s caller now k i b r = Inr s'" by (simp add: invoke_def)
    from resolveDispute_effect [OF this] show ?thesis by simp
  qed
qed

theorem startWork_spec_witness:
  "validEscrow env0 twoMilestones 7 \<and> nonReentrant env0 twoMilestones \<and>
   whenNotPaused env0 twoMilestones \<and>
   totalFeesByToken twoMilestones 40 + platformFee (escrows twoMilestones 7) \<le> MAX_UINT256 \<and>
   beneficiary (escrows twoMilestones 7) = 20 \<and>
   status (escrows twoMilestones 7) = Pending \<and>
   \<not> workStarted (escrows twoMilestones 7) \<and>
   (\<exists>s'. startWork env0 twoMilestones 20 1000 7 = Inr s') \<and>
   totalFeesByToken started 40 = 3 \<and>
   startWork env0 started 20 1001 7 = Inl InvalidState"
proof -
  have g: "validEscrow env0 twoMilestones 7" "nonReentrant env0 twoMilestones"
    "whenNotPaused env0 twoMilestones"
    by (simp_all add: env0_def)
  have e: "escrows twoMilestones 7 = escrows twoMilestones 7" ..
  have tk: "token (escrows twoMilestones 7) = 40"
    by (simp add: twoMilestones_def newEscrow_def)
  have f: "totalFeesByToken twoMilestones (token (escrows twoMilestones 7))
             + platformFee (escrows twoMilestones 7) \<le> MAX_UINT256"
    by (simp add: example_defs)
  have pre: "beneficiary (escrows twoMilestones 7) = 20"
    "status (escrows twoMilestones 7) = Pending" "\<not> workStarted (escrows twoMilestones 7)"
    by (simp_all add: twoMilestones_def newEscrow_def)
  note th = startWork_spec [OF g e f, of 20 1000 20 1001]
  from th have "(\<exists>s'. startWork env0 twoMilestones 20 1000 7 = Inr s') \<longleftrightarrow>
      20 = beneficiary (escrows twoMilestones 7) \<and> status (escrows twoMilestones 7) = Pending \<and>
      \<not> workStarted (escrows twoMilestones 7)"
    by (rule conjunct1)
  with pre have ex: "\<exists>s'. startWork env0 twoMilestones 20 1000 7 = Inr s'" by simp
  have st: "startWork env0 twoMilestones 20 1000 7 = Inr started"
    by (simp add: example_defs)
  from th have "startWork env0 twoMilestones 20 1000 7 = Inr started \<longrightarrow>
      workStarted (escrows started 7) \<and> status (escrows started 7) = InProgress \<and>
      totalFeesByToken started =
       (if platformFee (escrows twoMilestones 7) > 0
        then (totalFeesByToken twoMilestones)(token (escrows twoMilestones 7) :=
               totalFeesByToken twoMilestones (token (escrows twoMilestones 7))
                 + platformFee (escrows twoMilestones 7))
        else totalFeesByToken twoMilestones) \<and>
      isl (startWork env0 started 20 1001 7) \<and>
      (validEscrow env0 started 7 \<and> nonReentrant env0 started \<and> whenNotPaused env0 started \<and>
             (20::nat) = 20 \<longrightarrow> startWork env0 started 20 1001 7 = Inl InvalidState)"
    by (elim conjE allE)
  with st have
    "totalFeesByToken started =
       (if platformFee (escrows twoMilestones 7) > 0
        then (totalFeesByToken twoMilestones)(token (escrows twoMilestones 7) :=
               totalFeesByToken twoMilestones (token (escrows twoMilestones 7))
                 + platformFee (escrows twoMilestones 7))
        else totalFeesByToken twoMilestones)"
    and second: "validEscrow env0 started 7 \<and> nonReentrant env0 started \<and> whenNotPaused env0 started \<and>
             (20::nat) = 20 \<longrightarrow> startWork env0 started 20 1001 7 = Inl InvalidState"
    by simp_all
  then have fee: "totalFeesByToken started 40 = 3"
    by (simp add: twoMilestones_def newEscrow_def emptyStorage_def)
  have "validEscrow env0 started 7 \<and> nonReentrant env0 started \<and> whenNotPaused env0 started"
    by (simp add: env0_def)
  with second have again: "startWork env0 started 20 1001 7 = Inl InvalidState" by simp
  from f tk have f': "totalFeesByToken twoMilestones 40 + platformFee (escrows twoMilestones 7) \<le> MAX_UINT256"
    by simp
  show ?thesis
    by (intro conjI) (fact g f' pre ex fee again)+
qed

section \<open>Submitting and resubmitting\<close>

text \<open>
  Claim C10. \<^verbatim>\<open>submitMilestone\<close> succeeds exactly when the sender is the beneficiary, the
  modifiers pass, the escrow is \<open>InProgress\<close>, the index is below \<open>milestoneCount\<close> and the
  milestone is \<open>NotStarted\<close>; \<^verbatim>\<open>resubmitMilestone\<close> likewise for a \<open>Rejected\<close> milestone.
  After either, the stored description is the old one if the description passed is empty
  and the one passed otherwise, \<open>submittedAt\<close> is the time of the call and the status is
  \<open>Submitted\<close>.
\<close>

theorem submit_description:
  "((\<exists>s'. submitMilestone env s sender now escrowId i d = Inr s') \<longleftrightarrow>
      sender = beneficiary (escrows s escrowId) \<and> validEscrow env s escrowId \<and>
      nonReentrant env s \<and> whenNotPaused env s \<and> status (escrows s escrowId) = InProgress \<and>
      i < milestoneCount (escrows s escrowId) \<and> mstatus (milestones s escrowId i) = NotStarted) \<and>
   (\<forall>s'. submitMilestone env s sender now escrowId i d = Inr s' \<longrightarrow>
      description (milestones s' escrowId i) =
        (if d = [] then description (milestones s escrowId i) else d) \<and>
      submittedAt (milestones s' escrowId i) = now \<and>
      mstatus (milestones s' escrowId i) = Submitted) \<and>
   ((\<exists>t'. resubmitMilestone env t sender now escrowId j d = Inr t') \<longleftrightarrow>
      sender = beneficiary (escrows t escrowId) \<and> validEscrow env t escrowId \<and>
      nonReentrant env t \<and> whenNotPaused env t \<and> status (escrows t escrowId) = InProgress \<and>
      j < milestoneCount (escrows t escrowId) \<and> mstatus (milestones t escrowId j) = Rejected) \<and>
   (\<forall>t'. resubmitMilestone env t sender now escrowId j d = Inr t' \<longrightarrow>
      description (milestones t' escrowId j) =
        (if d = [] then description (milestones t escrowId j) else d) \<and>
      submittedAt (milestones t' escrowId j) = now \<and>
      mstatus (milestones t' escrowId j) = Submitted)"
proof (intro conjI allI impI)
  show "(\<exists>s'. submitMilestone env s sender now escrowId i d = Inr s') \<longleftrightarrow>
      sender = beneficiary (escrows s escrowId) \<and> validEscrow env s escrowId \<and>
      nonReentrant env s \<and> whenNotPaused env s \<and> status (escrows s escrowId) = InProgress \<and>
      i < milestoneCount (escrows s escrowId) \<and> mstatus (milestones s escrowId i) = NotStarted"
    by (auto simp: submitMilestone_def onlyBeneficiary_def op_defs)
  show "(\<exists>t'. resubmitMilestone env t sender now escrowId j d = Inr t') \<longleftrightarrow>
      sender = beneficiary (escrows t escrowId) \<and> validEscrow env t escrowId \<and>
      nonReentrant env t \<and> whenNotPaused env t \<and> status (escrows t escrowId) = InProgress \<and>
      j < milestoneCount (escrows t escrowId) \<and> mstatus (milestones t escrowId j) = Rejected"
    by (auto simp: resubmitMilestone_def onlyBeneficiary_def op_defs)
next
  fix s' assume "submitMilestone env s sender now escrowId i d = Inr s'"
  note eff = submitMilestone_effect [OF this]
  from eff show "description (milestones s' escrowId i) =
        (if d = [] then description (milestones s escrowId i) else d)"
    and "submittedAt (milestones s' escrowId i) = now"
    and "mstatus (milestones s' escrowId i) = Submitted"
    by simp_all
next
  fix t' assume "resubmitMilestone env t sender now escrowId j d = Inr t'"
  note eff = resubmitMilestone_effect [OF this]
  from eff show "description (milestones t' escrowId j) =
        (if d = [] then description (milestones t escrowId j) else d)"
    and "submittedAt (milestones t' escrowId j) = now"
    and "mstatus (milestones t' escrowId j) = Submitted"
    by simp_all
qed

theorem submit_description_witness:
  "(\<exists>s'. submitMilestone env0 started 20 2000 7 0 [] = Inr s') \<and>
   description (milestones (execute env0 started (20, 2000, 7, SubmitMilestone 0 [])) 7 0) = ''design'' \<and>
   (\<exists>s'. submitMilestone env0 started 20 2000 7 1 ''built'' = Inr s') \<and>
   description (milestones (execute env0 started (20, 2000, 7, SubmitMilestone 1 ''built'')) 7 1) = ''built'' \<and>
   submittedAt (milestones (execute env0 started (20, 2000, 7, SubmitMilestone 1 ''built'')) 7 1) = 2000 \<and>
   (\<exists>t'. resubmitMilestone env0 firstRejected 20 5000 7 0 ''fixed'' = Inr t') \<and>
   description (milestones (execute env0 firstRejected (20, 5000, 7, ResubmitMilestone 0 ''fixed'')) 7 0) = ''fixed'' \<and>
   mstatus (milestones (execute env0 firstRejected (20, 5000, 7, ResubmitMilestone 0 ''fixed'')) 7 0) = Submitted"
proof -
  have a: "submitMilestone env0 started 20 2000 7 0 [] =
      Inr (execute env0 started (20, 2000, 7, SubmitMilestone 0 []))"
    by (simp add: example_defs)
  have b: "submitMilestone env0 started 20 2000 7 1 ''built'' =
      Inr (execute env0 started (20, 2000, 7, SubmitMilestone 1 ''built''))"
    by (simp add: example_defs)
  have c: "resubmitMilestone env0 firstRejected 20 5000 7 0 ''fixed'' =
      Inr (execute env0 firstRejected (20, 5000, 7, ResubmitMilestone 0 ''fixed''))"
    by (simp add: example_defs)
  have d0: "description (milestones started 7 0) = ''design''"
    by (simp add: example_defs)
  note th1 = submit_description [of env0 started 20 2000 7 0 "[]" firstRejected 0]
  note th2 = submit_description [of env0 started 20 2000 7 1 "''built''" firstRejected 0]
  note th3 = submit_description [of env0 started 20 5000 7 1 "''fixed''" firstRejected 0]
  from th1 a d0 have r1: "description (milestones (execute env0 started (20, 2000, 7, SubmitMilestone 0 [])) 7 0) = ''design''"
    by simp
  from th2 b have r2: "description (milestones (execute env0 started (20, 2000, 7, SubmitMilestone 1 ''built'')) 7 1) = ''built''"
    "submittedAt (milestones (execute env0 started (20, 2000, 7, SubmitMilestone 1 ''built'')) 7 1) = 2000"
    by simp_all
  from th3 c have r3: "description (milestones (execute env0 firstRejected (20, 5000, 7, ResubmitMilestone 0 ''fixed'')) 7 0) = ''fixed''"
    "mstatus (milestones (execute env0 firstRejected (20, 5000, 7, ResubmitMilestone 0 ''fixed'')) 7 0) = Submitted"
    by simp_all
  from a b c have ex: "\<exists>s'. submitMilestone env0 started 20 2000 7 0 [] = Inr s'"
    "\<exists>s'. submitMilestone env0 started 20 2000 7 1 ''built'' = Inr s'"
    "\<exists>t'. resubmitMilestone env0 firstRejected 20 5000 7 0 ''fixed'' = Inr t'"
    by blast+
  show ?thesis
    by (intro conjI) (fact ex r1 r2 r3)+
qed

end
